theory Spec2Isabelle
  imports Complex_Main
begin

section \<open>Strings and exceptions\<close>

text \<open>
  A Python \<open>str\<close> is a sequence of Unicode code points, and \<open>len\<close> counts code points.
  A password is therefore a list of code points (natural numbers); \<open>str\<close> turns an
  ASCII literal into that representation.
\<close>

type_synonym codepoint = nat
type_synonym pystr = "codepoint list"

definition str :: "string \<Rightarrow> pystr" where
  "str s = map of_char s"

text \<open>\<open>s * n\<close> on a Python string: \<open>n\<close> copies of \<open>s\<close>.\<close>

definition py_repeat :: "pystr \<Rightarrow> nat \<Rightarrow> pystr" where
  "py_repeat s n = concat (replicate n s)"

text \<open>
  Every \<open>raise\<close> of the source is a value: the exception class with its message
  (\<open>str(ex)\<close>). \<open>Exception\<close> stands for whatever the external estimator raises.
\<close>

datatype exn =
    ValueError pystr
  | OverflowError pystr
  | ZeroDivisionError pystr
  | Exception pystr

fun exn_str :: "exn \<Rightarrow> pystr" where
  "exn_str (ValueError m) = m"
| "exn_str (OverflowError m) = m"
| "exn_str (ZeroDivisionError m) = m"
| "exn_str (Exception m) = m"

section \<open>Masking (\<open>_mask_password\<close>, core.py lines 111-117)\<close>

definition mask_password :: "pystr \<Rightarrow> pystr" where
  "mask_password pw =
     (if pw = [] then []
      else if length pw \<le> 2 then py_repeat (str ''*'') (length pw)
      else [pw ! 0] @ py_repeat (str ''*'') (length pw - 2) @ [pw ! (length pw - 1)])"

section \<open>Floating point\<close>

text \<open>
  A finite Python float is the real number it denotes, and every arithmetic operation
  returns the double nearest to the exact result (IEEE 754 binary64, round to nearest,
  ties to even). \<open>rnd\<close> is that rounding: the spacing of the doubles around \<open>x\<close> is
  \<open>ulp x\<close>, 52 binary places below the leading bit of \<open>x\<close>, and never less than
  \<open>2^-1074\<close> (the subnormal numbers). An exact result of magnitude
  \<open>2^1024 - 2^970\<close> or more is beyond the largest double.
\<close>

definition round_half_even :: "real \<Rightarrow> int" where
  "round_half_even x =
     (let f = \<lfloor>x\<rfloor>; d = x - of_int f
      in if d < 1 / 2 then f else if 1 / 2 < d then f + 1 else if even f then f else f + 1)"

definition two_pow :: "int \<Rightarrow> real" where
  "two_pow k = 2 powr (of_int k)"

definition exponent_of :: "real \<Rightarrow> int" where
  "exponent_of x = max (- 1022) \<lfloor>log 2 \<bar>x\<bar>\<rfloor>"

definition ulp :: "real \<Rightarrow> real" where
  "ulp x = two_pow (exponent_of x - 52)"

definition rnd :: "real \<Rightarrow> real" where
  "rnd x = (if x = 0 then 0 else of_int (round_half_even (x / ulp x)) * ulp x)"

definition overflow_threshold :: real where
  "overflow_threshold = 2 ^ 1024 - 2 ^ 970"

text \<open>
  \<open>math.log2\<close> and the float power \<open>**\<close> are computed by the C library, whose results
  are not fixed by IEEE 754: they are a parameter. Two things are known of them.
  \<open>math.log2\<close> of an exact power of two is its exponent (the test suite of CPython
  requires it). And \<open>2 ** x\<close> raises \<open>OverflowError\<close> once the result no longer fits a
  double, which for a double \<open>x\<close> is from \<open>x = 1024\<close> on; below, the result is finite.
\<close>

record libm =
  m_log2 :: "real \<Rightarrow> real"
  m_pow2 :: "real \<Rightarrow> real"

definition py_log2 :: "libm \<Rightarrow> real \<Rightarrow> real" where
  "py_log2 lm x =
     (let k = \<lfloor>log 2 x\<rfloor> in if x = two_pow k then of_int k else m_log2 lm x)"

definition range_error :: pystr where
  "range_error = str ''(34, '' @ [39] @ str ''Numerical result out of range'' @ [39] @ str '')''"

definition pow2 :: "libm \<Rightarrow> real \<Rightarrow> exn + real" where
  "pow2 lm x = (if 1024 \<le> x then Inl (OverflowError range_error) else Inr (m_pow2 lm x))"

text \<open>A C library that rounds the exact value correctly, for examples.\<close>

definition rounded_libm :: libm where
  "rounded_libm = \<lparr> m_log2 = (\<lambda>x. rnd (log 2 x)), m_pow2 = (\<lambda>x. rnd (2 powr x)) \<rparr>"

text \<open>
  \<open>round(x, n)\<close> on a float is the double nearest to the decimal rounding of \<open>x\<close> (ties
  to even); \<open>int(x)\<close> truncates towards zero.
\<close>

definition py_round :: "real \<Rightarrow> nat \<Rightarrow> real" where
  "py_round x n = rnd (of_int (round_half_even (x * 10 ^ n)) / 10 ^ n)"

definition py_int :: "real \<Rightarrow> int" where
  "py_int x = (if 0 \<le> x then \<lfloor>x\<rfloor> else \<lceil>x\<rceil>)"

text \<open>
  The crack-time converter is called with any number, so there a float is a finite
  double, a negative zero, an infinity or a NaN. \<open>Finite 0\<close> is the positive zero.
\<close>

datatype pyfloat = Finite real | NegZero | PosInf | NegInf | NaN

fun is_neg :: "pyfloat \<Rightarrow> bool" where
  "is_neg (Finite x) = (x < 0)"
| "is_neg NegZero = True"
| "is_neg NegInf = True"
| "is_neg PosInf = False"
| "is_neg NaN = False"

fun is_zero :: "pyfloat \<Rightarrow> bool" where
  "is_zero (Finite x) = (x = 0)"
| "is_zero NegZero = True"
| "is_zero PosInf = False"
| "is_zero NegInf = False"
| "is_zero NaN = False"

fun is_inf :: "pyfloat \<Rightarrow> bool" where
  "is_inf PosInf = True"
| "is_inf NegInf = True"
| "is_inf (Finite x) = False"
| "is_inf NegZero = False"
| "is_inf NaN = False"

fun magnitude :: "pyfloat \<Rightarrow> real" where
  "magnitude (Finite x) = \<bar>x\<bar>"
| "magnitude NegZero = 0"
| "magnitude PosInf = 0"
| "magnitude NegInf = 0"
| "magnitude NaN = 0"

definition signed_zero :: "bool \<Rightarrow> pyfloat" where
  "signed_zero neg = (if neg then NegZero else Finite 0)"

definition signed_inf :: "bool \<Rightarrow> pyfloat" where
  "signed_inf neg = (if neg then NegInf else PosInf)"

text \<open>The double for an exact magnitude \<open>m\<close> (not negative) with a sign.\<close>

definition round_to_double :: "bool \<Rightarrow> real \<Rightarrow> pyfloat" where
  "round_to_double neg m =
     (if overflow_threshold \<le> m then signed_inf neg
      else let r = rnd m
           in if r = 0 then signed_zero neg else Finite (if neg then - r else r))"

definition ieee_mul :: "pyfloat \<Rightarrow> pyfloat \<Rightarrow> pyfloat" where
  "ieee_mul a b =
     (let neg = (is_neg a \<noteq> is_neg b)
      in if a = NaN \<or> b = NaN then NaN
         else if is_inf a \<or> is_inf b then (if is_zero a \<or> is_zero b then NaN else signed_inf neg)
         else round_to_double neg (magnitude a * magnitude b))"

definition ieee_div :: "pyfloat \<Rightarrow> pyfloat \<Rightarrow> pyfloat" where
  "ieee_div a b =
     (let neg = (is_neg a \<noteq> is_neg b)
      in if a = NaN \<or> b = NaN then NaN
         else if is_inf a then (if is_inf b then NaN else signed_inf neg)
         else if is_inf b then signed_zero neg
         else if is_zero b then (if is_zero a then NaN else signed_inf neg)
         else round_to_double neg (magnitude a / magnitude b))"

text \<open>\<open>a < b\<close> on floats: false when either is a NaN; the two zeros are equal.\<close>

fun float_val :: "pyfloat \<Rightarrow> real" where
  "float_val (Finite x) = x"
| "float_val NegZero = 0"
| "float_val PosInf = 0"
| "float_val NegInf = 0"
| "float_val NaN = 0"

definition float_lt :: "pyfloat \<Rightarrow> pyfloat \<Rightarrow> bool" where
  "float_lt a b =
     (if a = NaN \<or> b = NaN then False
      else if a = PosInf \<or> b = NegInf then False
      else if a = NegInf \<or> b = PosInf then True
      else float_val a < float_val b)"

text \<open>Python's float division: \<open>ZeroDivisionError\<close> on a zero divisor, else IEEE.\<close>

definition py_div :: "pyfloat \<Rightarrow> pyfloat \<Rightarrow> exn + pyfloat" where
  "py_div a b = (if is_zero b then Inl (ZeroDivisionError (str ''float division by zero''))
                 else Inr (ieee_div a b))"

text \<open>
  A number handed to the converter is an \<open>int\<close> or a \<open>float\<close>. \<open>float(x)\<close> leaves a
  float as it is and rounds an int to the nearest double, raising \<open>OverflowError\<close>
  when there is none. \<open>x <= 0\<close> compares exactly and is false of a NaN.
\<close>

datatype pynum = PyInt int | PyFloat pyfloat

definition py_float :: "pynum \<Rightarrow> exn + pyfloat" where
  "py_float x =
     (case x of
        PyFloat f \<Rightarrow> Inr f
      | PyInt i \<Rightarrow>
          if overflow_threshold \<le> \<bar>of_int i\<bar>
          then Inl (OverflowError (str ''int too large to convert to float''))
          else Inr (Finite (rnd (of_int i))))"

definition num_le_zero :: "pynum \<Rightarrow> bool" where
  "num_le_zero x =
     (case x of
        PyInt i \<Rightarrow> i \<le> 0
      | PyFloat f \<Rightarrow> f \<noteq> NaN \<and> \<not> float_lt (Finite 0) f)"

section \<open>Shannon entropy (\<open>_shannon_entropy_bits\<close>, core.py lines 22-34)\<close>

text \<open>
  The frequency table is a Python dict: an association list in insertion order, a new
  key appended, a known key updated in place.
\<close>

fun dict_get :: "('k \<times> 'v) list \<Rightarrow> 'k \<Rightarrow> 'v \<Rightarrow> 'v" where
  "dict_get [] k d = d"
| "dict_get ((k', v) # kvs) k d = (if k' = k then v else dict_get kvs k d)"

fun dict_set :: "('k \<times> 'v) list \<Rightarrow> 'k \<Rightarrow> 'v \<Rightarrow> ('k \<times> 'v) list" where
  "dict_set [] k v = [(k, v)]"
| "dict_set ((k', v') # kvs) k v =
     (if k' = k then (k, v) # kvs else (k', v') # dict_set kvs k v)"

definition dict_values :: "('k \<times> 'v) list \<Rightarrow> 'v list" where
  "dict_values kvs = map snd kvs"

text \<open>The first loop: \<open>for ch in password: freq[ch] = freq.get(ch, 0) + 1\<close>.\<close>

fun count_chars :: "(codepoint \<times> nat) list \<Rightarrow> pystr \<Rightarrow> (codepoint \<times> nat) list" where
  "count_chars freq [] = freq"
| "count_chars freq (ch # rest) = count_chars (dict_set freq ch (dict_get freq ch 0 + 1)) rest"

text \<open>
  The second loop: \<open>for count in freq.values(): p = count / length;
  entropy_per_char -= p * math.log2(p)\<close>. Every count is at least 1 and the length is
  positive here, so \<open>math.log2\<close> is never applied outside its domain. The loop is given
  first in exact arithmetic, the value that the entropy formula speaks of.
\<close>

fun sum_entropy :: "real \<Rightarrow> nat \<Rightarrow> nat list \<Rightarrow> real" where
  "sum_entropy entropy_per_char len [] = entropy_per_char"
| "sum_entropy entropy_per_char len (count # counts) =
     (let p = real count / real len
      in sum_entropy (entropy_per_char - p * log 2 p) len counts)"

definition shannon_entropy_bits :: "pystr \<Rightarrow> real" where
  "shannon_entropy_bits password =
     (if password = [] then 0
      else let freq = count_chars [] password;
               len = length password;
               entropy_per_char = sum_entropy 0 len (dict_values freq)
           in entropy_per_char * real len)"

text \<open>The summand \<open>p * log2 p\<close> of a character that occurs \<open>count\<close> times among \<open>len\<close>.\<close>

definition plogp :: "nat \<Rightarrow> nat \<Rightarrow> real" where
  "plogp len count = (real count / real len) * log 2 (real count / real len)"

text \<open>
  The same two loops as the interpreter runs them, in double arithmetic: \<open>count /
  length\<close> is the correctly rounded quotient of two ints, the product, the difference
  and the final product are rounded, and \<open>length\<close> is converted to a float for the last
  product. Every value here is finite. \<open>shannon_entropy_bits\<close> above is the function in
  exact arithmetic.
\<close>

fun sum_entropy_double :: "libm \<Rightarrow> real \<Rightarrow> nat \<Rightarrow> nat list \<Rightarrow> real" where
  "sum_entropy_double lm entropy_per_char len [] = entropy_per_char"
| "sum_entropy_double lm entropy_per_char len (count # counts) =
     (let p = rnd (real count / real len)
      in sum_entropy_double lm (rnd (entropy_per_char - rnd (p * py_log2 lm p))) len counts)"

definition shannon_entropy_double :: "libm \<Rightarrow> pystr \<Rightarrow> real" where
  "shannon_entropy_double lm password =
     (if password = [] then 0
      else let freq = count_chars [] password;
               len = length password;
               entropy_per_char = sum_entropy_double lm 0 len (dict_values freq)
           in rnd (entropy_per_char * rnd (real len)))"

section \<open>Score classifier (\<open>_heuristic_score\<close>, core.py lines 120-135)\<close>

definition heuristic_score :: "real \<Rightarrow> nat \<Rightarrow> int" where
  "heuristic_score entropy_bits len =
     (if len = 0 then 0
      else if entropy_bits < 28 then 0
      else if entropy_bits < 36 then 1
      else if entropy_bits < 60 then 2
      else if entropy_bits < 80 then 3
      else 4)"

section \<open>Character classes\<close>

text \<open>
  The constants of Python's \<open>string\<close> module. \<open>string.punctuation\<close> is the 32 ASCII
  characters \<open>!\<close> to \<open>/\<close>, \<open>:\<close> to \<open>@\<close>, \<open>[\<close> to the backquote and \<open>{\<close> to \<open>~\<close>;
  \<open>string.whitespace\<close> is space, tab, newline, carriage return, vertical tab and form
  feed.
\<close>

definition digits :: pystr where
  "digits = str ''0123456789''"

definition ascii_lowercase :: pystr where
  "ascii_lowercase = str ''abcdefghijklmnopqrstuvwxyz''"

definition ascii_uppercase :: pystr where
  "ascii_uppercase = str ''ABCDEFGHIJKLMNOPQRSTUVWXYZ''"

definition ascii_letters :: pystr where
  "ascii_letters = ascii_lowercase @ ascii_uppercase"

definition punctuation :: pystr where
  "punctuation = [33..<48] @ [58..<65] @ [91..<97] @ [123..<127]"

definition whitespace :: pystr where
  "whitespace = [32, 9, 10, 13, 11, 12]"

definition printable :: pystr where
  "printable = digits @ ascii_letters @ punctuation @ whitespace"

text \<open>
  \<open>str.isupper\<close>, \<open>str.islower\<close>, \<open>str.isdigit\<close>, \<open>str.isprintable\<close> and
  \<open>str.isalnum\<close> are decided by the Unicode character database of the interpreter,
  which is not part of this program: they are a parameter. The program calls the first
  three. \<open>ascii_db\<close> is their restriction to ASCII, where the printable characters are
  the codes 32 to 126 and the alphanumeric ones the letters and the digits.
\<close>

record unicode_db =
  isupper :: "codepoint \<Rightarrow> bool"
  islower :: "codepoint \<Rightarrow> bool"
  isdigit :: "codepoint \<Rightarrow> bool"
  isprintable :: "codepoint \<Rightarrow> bool"
  isalnum :: "codepoint \<Rightarrow> bool"

definition ascii_db :: unicode_db where
  "ascii_db = \<lparr> isupper = (\<lambda>c. 65 \<le> c \<and> c \<le> 90),
                islower = (\<lambda>c. 97 \<le> c \<and> c \<le> 122),
                isdigit = (\<lambda>c. 48 \<le> c \<and> c \<le> 57),
                isprintable = (\<lambda>c. 32 \<le> c \<and> c \<le> 126),
                isalnum = (\<lambda>c. (48 \<le> c \<and> c \<le> 57) \<or> (65 \<le> c \<and> c \<le> 90)
                                \<or> (97 \<le> c \<and> c \<le> 122)) \<rparr>"

section \<open>The external estimator\<close>

text \<open>
  \<open>zxcvbn\<close> is an optional third-party library. \<open>Unavailable\<close> is a failed import
  (\<open>_HAS_ZXCVBN = False\<close>); otherwise the library is a function from the password to
  an exception or to a dict, of which the program reads the keys \<open>entropy\<close>, \<open>guesses\<close>
  and \<open>score\<close>, each of which may be missing. The values are taken at the types the
  source's comment gives them (a float, a number, an integer), and are finite.
\<close>

record zres =
  z_entropy :: "real option"
  z_guesses :: "real option"
  z_score :: "int option"

datatype estimator = Unavailable | Available "pystr \<Rightarrow> exn + zres"

section \<open>Analysis (\<open>analyze_password\<close>, core.py lines 37-108)\<close>

text \<open>
  The fallback computation, which the source writes twice (lines 86-88 and 90-92):
  Shannon entropy, \<open>max(1.0, 2 ** entropy_bits)\<close> and the heuristic score.
\<close>

definition shannon_fallback :: "libm \<Rightarrow> pystr \<Rightarrow> exn + real \<times> real \<times> int" where
  "shannon_fallback lm pw =
     (let entropy_bits = shannon_entropy_double lm pw
      in case pow2 lm entropy_bits of
           Inl ex \<Rightarrow> Inl ex
         | Inr p \<Rightarrow> Inr (entropy_bits, max 1 p, heuristic_score entropy_bits (length pw)))"

text \<open>
  The body of the \<open>try\<close> (lines 79-83). The default of \<open>zres.get("guesses", ...)\<close>
  is an argument, so \<open>2 ** entropy_bits\<close> is computed whether or not the key is there.
\<close>

definition try_zxcvbn ::
  "libm \<Rightarrow> (pystr \<Rightarrow> exn + zres) \<Rightarrow> pystr \<Rightarrow> exn + real \<times> real \<times> int" where
  "try_zxcvbn lm zxcvbn pw =
     (case zxcvbn pw of
        Inl ex \<Rightarrow> Inl ex
      | Inr zr \<Rightarrow>
          (let entropy_bits =
                 (case z_entropy zr of Some e \<Rightarrow> e | None \<Rightarrow> shannon_entropy_double lm pw)
           in case pow2 lm entropy_bits of
                Inl ex \<Rightarrow> Inl ex
              | Inr p \<Rightarrow>
                  Inr (entropy_bits,
                       (case z_guesses zr of Some g \<Rightarrow> g | None \<Rightarrow> max 1 p),
                       (case z_score zr of Some s \<Rightarrow> s | None \<Rightarrow> 0))))"

text \<open>
  Lines 72-93: the notes, the entropy, the guesses and the score. An exception of the
  \<open>try\<close> body is caught and noted, and the fallback runs in the handler; an exception of
  the fallback itself is caught by nothing.
\<close>

definition estimate ::
  "libm \<Rightarrow> estimator \<Rightarrow> pystr \<Rightarrow> exn + pystr list \<times> real \<times> real option \<times> int option" where
  "estimate lm est pw =
     (case est of
        Available zxcvbn \<Rightarrow>
          (case try_zxcvbn lm zxcvbn pw of
             Inr (entropy_bits, g, s) \<Rightarrow> Inr ([], entropy_bits, Some g, Some s)
           | Inl ex \<Rightarrow>
               (case shannon_fallback lm pw of
                  Inl ex' \<Rightarrow> Inl ex'
                | Inr (entropy_bits, g, s) \<Rightarrow>
                    Inr ([str ''zxcvbn error: '' @ exn_str ex
                            @ str ''; falling back to Shannon entropy''],
                         entropy_bits, Some g, Some s)))
      | Unavailable \<Rightarrow>
          (case shannon_fallback lm pw of
             Inl ex \<Rightarrow> Inl ex
           | Inr (entropy_bits, g, s) \<Rightarrow>
               Inr ([str ''zxcvbn not available; used Shannon entropy & heuristic score''],
                    entropy_bits, Some g, Some s)))"

definition charset_size :: "bool \<Rightarrow> bool \<Rightarrow> bool \<Rightarrow> bool \<Rightarrow> nat" where
  "charset_size lower upper digit symbol =
     (let c0 = 0;
          c1 = (if lower then c0 + 26 else c0);
          c2 = (if upper then c1 + 26 else c1);
          c3 = (if digit then c2 + 10 else c2);
          c4 = (if symbol then c3 + 32 else c3)
      in c4)"

definition symbols :: "codepoint set" where
  "symbols = set printable - set ascii_letters - set digits"

record analysis_result =
  password_masked :: pystr
  length_r :: nat
  has_upper :: bool
  has_lower :: bool
  has_digit :: bool
  has_symbol :: bool
  charset_size_est :: nat
  entropy_bits :: real
  guesses :: "int option"
  score :: "int option"
  notes_r :: "pystr list"

definition analyze_password ::
  "libm \<Rightarrow> unicode_db \<Rightarrow> estimator \<Rightarrow> pystr \<Rightarrow> exn + analysis_result" where
  "analyze_password lm db est password =
     (let pw = password;
          len = length pw;
          up = list_ex (isupper db) pw;
          lo = list_ex (islower db) pw;
          di = list_ex (isdigit db) pw;
          sy = list_ex (\<lambda>c. c \<in> symbols) pw
      in case estimate lm est pw of
           Inl ex \<Rightarrow> Inl ex
         | Inr (ns, e, g, s) \<Rightarrow>
             Inr \<lparr> password_masked = mask_password pw,
                   length_r = len,
                   has_upper = up,
                   has_lower = lo,
                   has_digit = di,
                   has_symbol = sy,
                   charset_size_est = charset_size lo up di sy,
                   entropy_bits = py_round e 3,
                   guesses = map_option py_int g,
                   score = s,
                   notes_r = ns \<rparr>)"

section \<open>Crack time (\<open>estimate_crack_time_from_guesses\<close>, core.py lines 138-172)\<close>

text \<open>Decimal digits of a natural number, and left padding with zeros.\<close>

fun str_of_nat :: "nat \<Rightarrow> pystr" where
  "str_of_nat n = (if n < 10 then [48 + n] else str_of_nat (n div 10) @ [48 + n mod 10])"

declare str_of_nat.simps [simp del]

definition zfill :: "nat \<Rightarrow> pystr \<Rightarrow> pystr" where
  "zfill n s = replicate (n - length s) 48 @ s"

text \<open>Reading a decimal numeral back.\<close>

definition nat_of_str :: "pystr \<Rightarrow> nat" where
  "nat_of_str s = foldl (\<lambda>a d. 10 * a + (d - 48)) 0 s"

text \<open>
  The format \<open>f"{x:.nf}"\<close> of a float: the sign, the integer part, and \<open>n\<close> decimals,
  the exact value of the double rounded at the last one (ties to even); \<open>inf\<close> and
  \<open>nan\<close> for the special values.
\<close>

definition format_real :: "real \<Rightarrow> nat \<Rightarrow> pystr" where
  "format_real x n =
     (let m = nat (round_half_even (\<bar>x\<bar> * 10 ^ n));
          whole = m div 10 ^ n;
          frac = m mod 10 ^ n
      in str_of_nat whole @ (if n = 0 then [] else str ''.'' @ zfill n (str_of_nat frac)))"

definition format_f :: "pyfloat \<Rightarrow> nat \<Rightarrow> pystr" where
  "format_f x n =
     (case x of
        Finite v \<Rightarrow> (if v < 0 then str ''-'' else []) @ format_real v n
      | NegZero \<Rightarrow> str ''-'' @ format_real 0 n
      | PosInf \<Rightarrow> str ''inf''
      | NegInf \<Rightarrow> str ''-inf''
      | NaN \<Rightarrow> str ''nan'')"

text \<open>
  \<open>_human_readable_seconds\<close> is called with the float of line 150. Its divisors are
  the constants, none of them zero, so each division is the IEEE one.
\<close>

definition human_readable_seconds :: "pyfloat \<Rightarrow> pystr" where
  "human_readable_seconds seconds =
     (if float_lt seconds (Finite 1) then format_f seconds 3 @ str '' seconds''
      else let minute = Finite 60;
               hour = ieee_mul (Finite 60) minute;
               day = ieee_mul (Finite 24) hour;
               year = ieee_mul (Finite 365.25) day
           in if float_lt seconds minute then format_f seconds 2 @ str '' seconds''
              else if float_lt seconds hour
                then format_f (ieee_div seconds (Finite 60)) 2 @ str '' minutes''
              else if float_lt seconds day
                then format_f (ieee_div seconds hour) 2 @ str '' hours''
              else if float_lt seconds year
                then format_f (ieee_div seconds day) 2 @ str '' days''
              else format_f (ieee_div seconds year) 2 @ str '' years'')"

record crack_time =
  seconds :: pyfloat
  human_readable :: pystr
  guesses_per_second :: pynum

definition estimate_crack_time_from_guesses :: "pynum \<Rightarrow> pynum \<Rightarrow> exn + crack_time" where
  "estimate_crack_time_from_guesses g gps =
     (if num_le_zero gps then Inl (ValueError (str ''guesses_per_second must be > 0''))
      else case py_float g of
             Inl ex \<Rightarrow> Inl ex
           | Inr a \<Rightarrow>
               (case py_float gps of
                  Inl ex \<Rightarrow> Inl ex
                | Inr b \<Rightarrow>
                    (case py_div a b of
                       Inl ex \<Rightarrow> Inl ex
                     | Inr secs \<Rightarrow>
                         (let human = human_readable_seconds secs
                          in Inr \<lparr> seconds = secs, human_readable = human,
                                  guesses_per_second = gps \<rparr>))))"

section \<open>CSV report (\<open>save_csv_report\<close>, report.py lines 14-36)\<close>

text \<open>
  A CSV file is the list of the rows handed to the \<open>csv\<close> writer, each cell the Python
  value it was given (the writer prints \<open>None\<close> as the empty cell). The file system
  maps a file name to the rows of the file; opening with mode \<open>w\<close> starts from the empty
  file. A result is the dict built by \<open>analyze_password\<close>, possibly with more keys (the
  callers add the crack time), so every key that is read is present.
\<close>

datatype cell = CStr pystr | CInt int | CFloat real | CNone

type_synonym csv_file = "cell list list"

definition fieldnames :: "pystr list" where
  "fieldnames = [str ''password_id'', str ''password_masked'', str ''length'',
                 str ''entropy_bits'', str ''guesses'', str ''score'', str ''notes'']"

fun join :: "pystr \<Rightarrow> pystr list \<Rightarrow> pystr" where
  "join sep [] = []"
| "join sep [x] = x"
| "join sep (x # y # ys) = x @ sep @ join sep (y # ys)"

definition opt_cell :: "int option \<Rightarrow> cell" where
  "opt_cell v = (case v of None \<Rightarrow> CNone | Some i \<Rightarrow> CInt i)"

definition csv_row :: "nat \<Rightarrow> 'a analysis_result_scheme \<Rightarrow> cell list" where
  "csv_row i r =
     [CStr (str ''p'' @ str_of_nat i),
      CStr (password_masked r),
      CInt (int (length_r r)),
      CFloat (entropy_bits r),
      opt_cell (guesses r),
      opt_cell (score r),
      CStr (if notes_r r \<noteq> [] then join (str '' | '') (notes_r r) else [])]"

text \<open>The loop \<open>for i, r in enumerate(results, start=1): writer.writerow(...)\<close>,
  started at \<open>i\<close> on the file written so far.\<close>

fun write_rows :: "nat \<Rightarrow> 'a analysis_result_scheme list \<Rightarrow> csv_file \<Rightarrow> csv_file" where
  "write_rows i [] f = f"
| "write_rows i (r # rs) f = write_rows (Suc i) rs (f @ [csv_row i r])"

definition save_csv_report ::
  "'m \<Rightarrow> 'a analysis_result_scheme list \<Rightarrow> pystr \<Rightarrow> (pystr \<rightharpoonup> csv_file) \<Rightarrow> (pystr \<rightharpoonup> csv_file)" where
  "save_csv_report meta results filename fs =
     (if results = [] then fs(filename \<mapsto> [map CStr fieldnames])
      else fs(filename \<mapsto> write_rows 1 results [map CStr fieldnames]))"

section \<open>Modes of the analysis and the estimator's contract\<close>

text \<open>
  The analysis is in fallback mode when the estimator is unavailable or the \<open>try\<close>
  block raises.
\<close>

definition fallback_mode :: "libm \<Rightarrow> estimator \<Rightarrow> pystr \<Rightarrow> bool" where
  "fallback_mode lm est pw =
     (case est of
        Unavailable \<Rightarrow> True
      | Available zxcvbn \<Rightarrow>
          (case try_zxcvbn lm zxcvbn pw of Inl ex \<Rightarrow> True | Inr v \<Rightarrow> False))"

text \<open>
  What the specification says of the external estimator (section 4.1): it returns its
  own 0-4 score.
\<close>

definition zres_contract :: "zres \<Rightarrow> bool" where
  "zres_contract zr = (case z_score zr of None \<Rightarrow> True | Some s \<Rightarrow> 0 \<le> s \<and> s \<le> 4)"

definition estimator_contract :: "estimator \<Rightarrow> pystr \<Rightarrow> bool" where
  "estimator_contract est pw =
     (case est of
        Unavailable \<Rightarrow> True
      | Available zxcvbn \<Rightarrow> (case zxcvbn pw of Inl ex \<Rightarrow> True | Inr zr \<Rightarrow> zres_contract zr))"


definition estimator_entropy :: "estimator \<Rightarrow> pystr \<Rightarrow> real option" where
  "estimator_entropy est pw =
     (case est of
        Unavailable \<Rightarrow> None
      | Available zxcvbn \<Rightarrow> (case zxcvbn pw of Inl ex \<Rightarrow> None | Inr zr \<Rightarrow> z_entropy zr))"



text \<open>
  The words of the specification for a symbol: a printable character that is not
  alphanumeric, in the sense of \<open>str.isprintable\<close> and \<open>str.isalnum\<close>.
\<close>

definition spec_symbol :: "unicode_db \<Rightarrow> codepoint \<Rightarrow> bool" where
  "spec_symbol db c = (isprintable db c \<and> \<not> isalnum db c)"

text \<open>A result dict with given masked password and notes, for examples.\<close>

definition sample_result :: "pystr \<Rightarrow> pystr list \<Rightarrow> analysis_result" where
  "sample_result masked ns =
     \<lparr> password_masked = masked, length_r = length masked, has_upper = False,
       has_lower = True, has_digit = False, has_symbol = False, charset_size_est = 26,
       entropy_bits = 8, guesses = Some 256, score = Some 0, notes_r = ns \<rparr>"

section \<open>Properties of masking\<close>

lemma py_repeat_star: "py_repeat (str ''*'') n = replicate n 42"
  by (induction n) (simp_all add: py_repeat_def str_def)

lemma length_mask_password: "length (mask_password pw) = length pw"
  by (auto simp: mask_password_def py_repeat_star)

section \<open>Properties of the Shannon entropy\<close>

lemma keys_dict_set:
  "map fst (dict_set f k v) = (if k \<in> fst ` set f then map fst f else map fst f @ [k])"
  by (induction f) (auto simp: rev_image_eqI)

lemma keyset_dict_set: "fst ` set (dict_set f k v) = insert k (fst ` set f)"
proof -
  have "set (map fst (dict_set f k v)) = insert k (set (map fst f))"
    unfolding keys_dict_set by auto
  then show ?thesis by simp
qed

lemma dict_get_dict_set:
  "dict_get (dict_set f k v) k' d = (if k' = k then v else dict_get f k' d)"
  by (induction f) auto

lemma distinct_dict_set:
  "distinct (map fst f) \<Longrightarrow> distinct (map fst (dict_set f k v))"
  by (auto simp: keys_dict_set)

lemma count_chars_keys:
  "fst ` set (count_chars f pw) = fst ` set f \<union> set pw"
  by (induction pw arbitrary: f) (simp_all add: keyset_dict_set)

lemma count_chars_distinct:
  "distinct (map fst f) \<Longrightarrow> distinct (map fst (count_chars f pw))"
  by (induction pw arbitrary: f) (auto simp: distinct_dict_set)

lemma count_chars_get:
  "dict_get (count_chars f pw) c 0 = dict_get f c 0 + count_list pw c"
  by (induction pw arbitrary: f) (auto simp: dict_get_dict_set)

lemma sum_entropy_eq:
  "sum_entropy acc len counts = acc - (\<Sum>c\<leftarrow>counts. plogp len c)"
  by (induction counts arbitrary: acc) (auto simp: plogp_def Let_def)

lemma sum_values_distinct:
  "distinct (map fst f) \<Longrightarrow>
   (\<Sum>v\<leftarrow>dict_values f. g v) = (\<Sum>k\<in>fst ` set f. g (dict_get f k d))"
proof (induction f)
  case Nil
  then show ?case by (simp add: dict_values_def)
next
  case (Cons kv f)
  obtain k v where kv: "kv = (k, v)" by (cases kv)
  from Cons.prems kv have nk: "k \<notin> fst ` set f" and df: "distinct (map fst f)" by auto
  have "(\<Sum>k'\<in>fst ` set f. g (dict_get (kv # f) k' d)) = (\<Sum>k'\<in>fst ` set f. g (dict_get f k' d))"
    using nk kv by (intro sum.cong) auto
  then show ?case using Cons.IH [OF df] nk kv
    by (simp add: dict_values_def)
qed

lemma shannon_entropy_bits_sum:
  "shannon_entropy_bits pw =
     real (length pw) * (\<Sum>c\<in>set pw. - plogp (length pw) (count_list pw c))"
proof (cases "pw = []")
  case True
  then show ?thesis by (simp add: shannon_entropy_bits_def)
next
  case False
  have d: "distinct (map fst (count_chars [] pw))" by (rule count_chars_distinct) simp
  have k: "fst ` set (count_chars [] pw) = set pw" using count_chars_keys [of "[]" pw] by simp
  have "(\<Sum>v\<leftarrow>dict_values (count_chars [] pw). plogp (length pw) v)
        = (\<Sum>c\<in>set pw. plogp (length pw) (count_list pw c))"
    using sum_values_distinct [OF d, of "plogp (length pw)" 0] by (simp add: k count_chars_get)
  then show ?thesis using False
    by (simp add: shannon_entropy_bits_def Let_def sum_entropy_eq sum_negf)
qed

lemma dict_set_values: "set (dict_values (dict_set f k v)) \<subseteq> insert v (set (dict_values f))"
  by (induction f) (force simp: dict_values_def split: if_splits)+

lemma count_chars_positive:
  "\<forall>v \<in> set (dict_values f). 0 < v \<Longrightarrow> \<forall>v \<in> set (dict_values (count_chars f pw)). 0 < v"
proof (induction pw arbitrary: f)
  case Nil
  then show ?case by simp
next
  case (Cons ch rest)
  have "\<forall>v \<in> set (dict_values (dict_set f ch (dict_get f ch 0 + 1))). 0 < v"
    using Cons.prems dict_set_values [of f ch "dict_get f ch 0 + 1"] by auto
  then show ?case using Cons.IH by simp
qed

lemma log2_quarter: "log 2 (1 / 4) = - 2"
proof -
  have "log 2 (1 / 4) = - log 2 (2 ^ 2)" by (simp add: log_divide)
  also have "\<dots> = - 2" by (simp only: log_pow_cancel)
  finally show ?thesis .
qed

lemma shannon_aaaa: "shannon_entropy_bits (str ''aaaa'') = 0"
  by (simp add: shannon_entropy_bits_def str_def dict_values_def)

lemma shannon_abcd: "shannon_entropy_bits (str ''abcd'') = 8"
  by (simp add: shannon_entropy_bits_def str_def dict_values_def log2_quarter)

lemma count_list_concat_replicate:
  "count_list (concat (replicate k xs)) c = k * count_list xs c"
  by (induction k) (simp_all add: count_list_append)

lemma count_list_distinct: "distinct xs \<Longrightarrow> c \<in> set xs \<Longrightarrow> count_list xs c = 1"
  by (induction xs) (auto simp: count_list_0_iff)

lemma shannon_repeated_alphabet:
  assumes "distinct xs" and "xs \<noteq> []" and "0 < k"
  shows "shannon_entropy_bits (concat (replicate k xs))
         = real (k * length xs) * log 2 (real (length xs))"
proof -
  let ?n = "length xs"
  let ?pw = "concat (replicate k xs)"
  have n: "0 < ?n" using assms(2) by simp
  have len: "length ?pw = k * ?n" by (simp add: length_concat sum_list_replicate)
  have st: "set ?pw = set xs" using assms(3) by auto
  have p: "plogp (k * ?n) (count_list ?pw c) = - (log 2 (real ?n) / real ?n)" if "c \<in> set xs" for c
  proof -
    have "count_list ?pw c = k" using that assms(1) by (simp add: count_list_concat_replicate count_list_distinct)
    moreover have "real k / real (k * ?n) = 1 / real ?n" using assms(3) by simp
    ultimately show ?thesis using n by (simp add: plogp_def log_divide)
  qed
  have "(\<Sum>c\<in>set xs. - plogp (k * ?n) (count_list ?pw c)) = (\<Sum>c\<in>set xs. log 2 (real ?n) / real ?n)"
    by (intro sum.cong) (simp_all add: p)
  also have "\<dots> = real (card (set xs)) * (log 2 (real ?n) / real ?n)" by simp
  also have "\<dots> = log 2 (real ?n)" using n by (simp add: distinct_card [OF assms(1)])
  finally have sm: "(\<Sum>c\<in>set xs. - plogp (k * ?n) (count_list ?pw c)) = log 2 (real ?n)" .
  have "shannon_entropy_bits ?pw
        = real (length ?pw) * (\<Sum>c\<in>set ?pw. - plogp (length ?pw) (count_list ?pw c))"
    by (rule shannon_entropy_bits_sum)
  also have "\<dots> = real (k * ?n) * log 2 (real ?n)"
    unfolding len st sm ..
  finally show ?thesis .
qed



section \<open>Rounding to a double\<close>

lemma round_half_even_of_int: "round_half_even (of_int n) = n"
  by (simp add: round_half_even_def)

lemma two_pow_pos: "0 < two_pow k"
  by (simp add: two_pow_def)

lemma two_pow_add: "two_pow (a + b) = two_pow a * two_pow b"
  by (simp add: two_pow_def powr_add)

lemma two_pow_nat: "two_pow (int n) = 2 ^ n"
  by (simp add: two_pow_def powr_realpow)

lemma two_pow_neg: "two_pow (- int n) = 1 / 2 ^ n"
  by (simp add: two_pow_def powr_minus powr_realpow inverse_eq_divide)

lemma exponent_of_eq:
  assumes "two_pow k \<le> \<bar>x\<bar>" and "\<bar>x\<bar> < two_pow (k + 1)" and "- 1022 \<le> k"
  shows "exponent_of x = k"
proof -
  have "0 < \<bar>x\<bar>" using assms(1) two_pow_pos [of k] by linarith
  then have "\<lfloor>log 2 \<bar>x\<bar>\<rfloor> = k"
    using assms(1,2) by (simp add: floor_log_eq_powr_iff two_pow_def)
  then show ?thesis using assms(3) by (simp add: exponent_of_def)
qed

text \<open>A number with at most 53 significant bits, in the range of the exponents, is a
  double: rounding leaves it as it is.\<close>

lemma rnd_exact:
  assumes x: "x = of_int m * two_pow e" and m: "\<bar>m\<bar> < 2 ^ 53" and e: "- 1074 \<le> e"
  shows "rnd x = x"
proof (cases "x = 0")
  case True
  then show ?thesis by (simp add: rnd_def)
next
  case False
  let ?E = "exponent_of x - 52"
  have ax: "\<bar>x\<bar> = of_int \<bar>m\<bar> * two_pow e"
    using x two_pow_pos [of e] by (simp add: abs_mult)
  have "\<bar>x\<bar> < 2 ^ 53 * two_pow e"
    unfolding ax using m two_pow_pos [of e]
    by (intro mult_strict_right_mono) (simp_all add: of_int_less_numeral_power_cancel_iff)
  also have "\<dots> = two_pow (53 + e)" by (simp add: two_pow_add two_pow_nat [of 53, simplified])
  finally have lt: "\<bar>x\<bar> < 2 powr (of_int (53 + e))" by (simp add: two_pow_def)
  have "log 2 \<bar>x\<bar> < of_int (53 + e)"
    using False lt by (subst log_less_iff) simp_all
  then have "\<lfloor>log 2 \<bar>x\<bar>\<rfloor> < 53 + e" by (simp add: floor_less_iff)
  then have le: "?E \<le> e" using e by (simp add: exponent_of_def)
  define n where "n = nat (e - ?E)"
  have en: "e = ?E + int n" using le by (simp add: n_def)
  have "x / ulp x = of_int m * (two_pow e / two_pow ?E)" by (simp add: x ulp_def)
  also have "two_pow e / two_pow ?E = 2 ^ n"
    using two_pow_pos [of ?E] by (subst en) (simp add: two_pow_add two_pow_nat)
  finally have q: "x / ulp x = of_int (m * 2 ^ n)" by simp
  have "rnd x = of_int (m * 2 ^ n) * ulp x"
    using False by (simp add: rnd_def q round_half_even_of_int del: of_int_mult of_int_power)
  also have "\<dots> = x / ulp x * ulp x" by (simp only: q)
  also have "\<dots> = x" using two_pow_pos [of ?E] by (simp add: ulp_def)
  finally show ?thesis .
qed

lemma rnd_of_int: "\<bar>n\<bar> < 2 ^ 53 \<Longrightarrow> rnd (of_int n) = of_int n"
  by (rule rnd_exact [where m = n and e = 0]) (simp_all add: two_pow_def)

lemma rnd_of_nat: "n < 2 ^ 53 \<Longrightarrow> rnd (real n) = real n"
  using rnd_of_int [of "int n"] by simp

lemma rnd_dyadic: "\<bar>m\<bar> < 2 ^ 53 \<Longrightarrow> a \<le> 1074 \<Longrightarrow> rnd (of_int m / 2 ^ a) = of_int m / 2 ^ a"
  by (rule rnd_exact [where m = m and e = "- int a"]) (simp_all add: two_pow_neg)

lemma rnd_dyadic_nat: "n < 2 ^ 53 \<Longrightarrow> a \<le> 1074 \<Longrightarrow> rnd (real n / 2 ^ a) = real n / 2 ^ a"
  using rnd_dyadic [of "int n" a] by simp

lemma py_log2_two_pow: "py_log2 lm (1 / 2 ^ a) = - real a"
proof -
  have "log 2 (1 / 2 ^ a :: real) = - real a"
    by (simp add: log_divide)
  then have "\<lfloor>log 2 (1 / 2 ^ a :: real)\<rfloor> = - int a"
    by (metis floor_of_int of_int_minus of_int_of_nat_eq)
  then show ?thesis by (simp add: py_log2_def two_pow_neg)
qed

section \<open>The Shannon entropy in double arithmetic\<close>

lemma dict_get_member:
  "distinct (map fst f) \<Longrightarrow> (c, v) \<in> set f \<Longrightarrow> dict_get f c d = v"
  by (induction f) (auto simp: rev_image_eqI)

text \<open>A password made of \<open>k\<close> copies of a string of distinct characters: every
  character is counted \<open>k\<close> times.\<close>

lemma count_chars_uniform:
  assumes "distinct xs" and "0 < k"
  shows "dict_values (count_chars [] (concat (replicate k xs))) = replicate (length xs) k"
proof -
  let ?pw = "concat (replicate k xs)"
  let ?f = "count_chars [] ?pw"
  have d: "distinct (map fst ?f)" by (rule count_chars_distinct) simp
  have st: "set ?pw = set xs" using assms(2) by auto
  have k: "fst ` set ?f = set xs" using count_chars_keys [of "[]" ?pw] st by simp
  have "length (map fst ?f) = card (set (map fst ?f))"
    using distinct_card [OF d] by simp
  also have "\<dots> = card (set xs)" using k by simp
  also have "\<dots> = length xs" using assms(1) by (simp add: distinct_card)
  finally have len: "length (dict_values ?f) = length xs" by (simp add: dict_values_def)
  have "v = k" if "v \<in> set (dict_values ?f)" for v
  proof -
    from that obtain c where cv: "(c, v) \<in> set ?f" by (auto simp: dict_values_def)
    then have "c \<in> set xs" using k by force
    then have "count_list ?pw c = k"
      using assms(1) by (simp add: count_list_concat_replicate count_list_distinct)
    moreover have "dict_get ?f c 0 = v" by (rule dict_get_member [OF d cv])
    ultimately show ?thesis using count_chars_get [of "[]" ?pw c] by simp
  qed
  then show ?thesis using len by (metis replicate_eqI)
qed

text \<open>When the length is \<open>k * 2^a\<close>, each of these characters has the frequency
  \<open>2^-a\<close>, and every step of the loop is exact.\<close>

lemma sum_entropy_double_uniform:
  assumes "len = k * 2 ^ a" and "0 < k" and "a \<le> 1074" and "(j + n) * a < 2 ^ 53"
  shows "sum_entropy_double lm (real (j * a) / 2 ^ a) len (replicate n k)
         = real ((j + n) * a) / 2 ^ a"
  using assms(4)
proof (induction n arbitrary: j)
  case 0
  then show ?case by simp
next
  case (Suc n)
  have q: "real k / real len = 1 / 2 ^ a" using assms(1,2) by simp
  have p: "rnd (real k / real len) = 1 / 2 ^ a"
    unfolding q using rnd_dyadic [of 1 a] assms(3) by simp
  have ja: "(j + 1) * a < 2 ^ 53" and a: "a < 2 ^ 53"
    using Suc.prems by (auto simp: algebra_simps intro: le_less_trans [rotated])
  have t: "rnd (1 / 2 ^ a * - real a) = - real a / 2 ^ a"
    using rnd_dyadic [of "- int a" a] a assms(3) by simp
  have "real (j * a) / 2 ^ a - - real a / 2 ^ a = of_int (int ((j + 1) * a)) / 2 ^ a"
    by (simp add: algebra_simps add_divide_distrib)
  moreover have "rnd (of_int (int ((j + 1) * a)) / 2 ^ a) = of_int (int ((j + 1) * a)) / 2 ^ a"
    using rnd_dyadic_nat [OF ja assms(3)] by simp
  ultimately have acc: "rnd (real (j * a) / 2 ^ a - - real a / 2 ^ a) = real (Suc j * a) / 2 ^ a"
    by simp
  have "sum_entropy_double lm (real (j * a) / 2 ^ a) len (replicate (Suc n) k)
        = sum_entropy_double lm
            (rnd (real (j * a) / 2 ^ a
                  - rnd (rnd (real k / real len) * py_log2 lm (rnd (real k / real len)))))
            len (replicate n k)"
    by (simp add: Let_def)
  also have "\<dots> = sum_entropy_double lm (real (Suc j * a) / 2 ^ a) len (replicate n k)"
    by (simp only: p py_log2_two_pow t acc)
  also have "\<dots> = real ((Suc j + n) * a) / 2 ^ a"
    using Suc.prems by (intro Suc.IH) simp
  finally show ?case by simp
qed

lemma shannon_entropy_double_uniform:
  assumes "distinct xs" and "length xs = 2 ^ a" and "0 < k" and "a * k * 2 ^ a < 2 ^ 53"
  shows "shannon_entropy_double lm (concat (replicate k xs)) = real (a * k * 2 ^ a)"
proof -
  let ?pw = "concat (replicate k xs)"
  have ne: "?pw \<noteq> []" using assms(2,3) by (cases xs) auto
  have len: "length ?pw = k * 2 ^ a"
    using assms(2) by (simp add: length_concat sum_list_replicate)
  have vals: "dict_values (count_chars [] ?pw) = replicate (2 ^ a) k"
    using count_chars_uniform [OF assms(1,3)] assms(2) by simp
  have a: "a \<le> 1074" and c: "(0 + 2 ^ a) * a < (2::nat) ^ 53"
  proof -
    have "2 ^ a * a \<le> a * k * 2 ^ a" using assms(3) by (simp add: Suc_le_eq)
    with assms(4) have *: "2 ^ a * a < (2::nat) ^ 53" by linarith
    then show "(0 + 2 ^ a) * a < (2::nat) ^ 53" by simp
    show "a \<le> 1074"
    proof (cases "a = 0")
      case False
      then have "(2::nat) ^ a \<le> 2 ^ a * a" by simp
      with * have "(2::nat) ^ a < 2 ^ 53" by linarith
      then have "a < 53" by (rule power_less_imp_less_exp [rotated]) simp
      then show ?thesis by simp
    qed simp
  qed
  have z: "real (0 * a) / 2 ^ a = 0" by simp
  have "sum_entropy_double lm (real (0 * a) / 2 ^ a) (length ?pw) (replicate (2 ^ a) k)
        = real ((0 + 2 ^ a) * a) / 2 ^ a"
    by (rule sum_entropy_double_uniform [OF len assms(3) a c])
  also have "\<dots> = real a" by simp
  finally have epc: "sum_entropy_double lm 0 (length ?pw) (replicate (2 ^ a) k) = real a"
    unfolding z .
  have r: "rnd (real a * rnd (real (k * 2 ^ a))) = real (a * k * 2 ^ a)"
  proof (cases "a = 0")
    case True
    then show ?thesis by (simp add: rnd_def)
  next
    case False
    then have "k * 2 ^ a \<le> a * k * 2 ^ a" by simp
    with assms(4) have "k * 2 ^ a < (2::nat) ^ 53" by linarith
    then have l: "rnd (real (k * 2 ^ a)) = real (k * 2 ^ a)" by (rule rnd_of_nat)
    have "real a * real (k * 2 ^ a) = real (a * k * 2 ^ a)" by (simp add: mult.assoc)
    then show ?thesis using rnd_of_nat [OF assms(4)] by (simp only: l)
  qed
  have "shannon_entropy_double lm ?pw
        = rnd (sum_entropy_double lm 0 (length ?pw) (replicate (2 ^ a) k)
               * rnd (real (length ?pw)))"
    using ne by (simp add: shannon_entropy_double_def vals Let_def)
  also have "\<dots> = rnd (real a * rnd (real (k * 2 ^ a)))"
    by (simp only: epc, simp only: len)
  finally show ?thesis by (simp only: r)
qed

lemma shannon_double_empty: "shannon_entropy_double lm [] = 0"
  by (simp add: shannon_entropy_double_def)

lemma shannon_double_abcd: "shannon_entropy_double lm (str ''abcd'') = 8"
  using shannon_entropy_double_uniform [of "str ''abcd''" 2 1 lm] by (simp add: str_def)

lemma shannon_double_aB3: "shannon_entropy_double lm (str ''aB3!'') = 8"
  using shannon_entropy_double_uniform [of "str ''aB3!''" 2 1 lm] by (simp add: str_def)

lemma shannon_double_spaces: "shannon_entropy_double lm (str ''     '') = 0"
proof -
  have "str ''     '' = concat (replicate 5 (str '' ''))"
    by (simp add: str_def numeral_eq_Suc)
  then show ?thesis
    using shannon_entropy_double_uniform [of "str '' ''" 0 5 lm] by (simp add: str_def)
qed

lemma shannon_double_aaaa: "shannon_entropy_double lm (str ''aaaa'') = 0"
proof -
  have "str ''aaaa'' = concat (replicate 4 (str ''a''))"
    by (simp add: str_def numeral_eq_Suc)
  then show ?thesis
    using shannon_entropy_double_uniform [of "str ''a''" 0 4 lm] by (simp add: str_def)
qed

lemma shannon_double_long:
  "shannon_entropy_double lm (py_repeat (str ''abcdefghijklmnop'') 32) = 2048"
  using shannon_entropy_double_uniform [of "str ''abcdefghijklmnop''" 4 32 lm]
  by (simp add: str_def py_repeat_def)

text \<open>On these passwords the double arithmetic gives the value of the exact one.\<close>

lemma shannon_double_agrees:
  "shannon_entropy_double lm (str ''abcd'') = shannon_entropy_bits (str ''abcd'')"
  "shannon_entropy_double lm (str ''aaaa'') = shannon_entropy_bits (str ''aaaa'')"
  by (simp_all add: shannon_double_abcd shannon_abcd shannon_double_aaaa shannon_aaaa)

section \<open>Paths of the analysis\<close>

lemma shannon_fallback_Inr:
  "shannon_fallback lm pw = Inr v \<longleftrightarrow>
     shannon_entropy_double lm pw < 1024
     \<and> v = (shannon_entropy_double lm pw, max 1 (m_pow2 lm (shannon_entropy_double lm pw)),
            heuristic_score (shannon_entropy_double lm pw) (length pw))"
  by (auto simp: shannon_fallback_def pow2_def Let_def)

lemma shannon_fallback_Inl:
  "shannon_fallback lm pw = Inl ex \<longleftrightarrow>
     1024 \<le> shannon_entropy_double lm pw \<and> ex = OverflowError range_error"
  by (auto simp: shannon_fallback_def pow2_def Let_def)

lemma heuristic_score_range: "0 \<le> heuristic_score e len \<and> heuristic_score e len \<le> 4"
  by (simp add: heuristic_score_def)


lemma try_zxcvbn_Inr:
  "try_zxcvbn lm z pw = Inr (e, g, s) \<Longrightarrow>
   \<exists>zr. z pw = Inr zr
      \<and> e = (case z_entropy zr of Some e' \<Rightarrow> e' | None \<Rightarrow> shannon_entropy_double lm pw)
      \<and> g = (case z_guesses zr of Some g' \<Rightarrow> g' | None \<Rightarrow> max 1 (m_pow2 lm e))
      \<and> s = (case z_score zr of Some s' \<Rightarrow> s' | None \<Rightarrow> 0)"
  by (auto simp: try_zxcvbn_def pow2_def Let_def split: sum.splits if_splits)

lemma estimate_fallback:
  "fallback_mode lm est pw \<Longrightarrow> estimate lm est pw = Inr (ns, e, g, s) \<Longrightarrow>
   e = shannon_entropy_double lm pw \<and> g = Some (max 1 (m_pow2 lm (shannon_entropy_double lm pw)))
   \<and> s = Some (heuristic_score (shannon_entropy_double lm pw) (length pw))"
  by (auto simp: fallback_mode_def estimate_def shannon_fallback_Inr
           split: estimator.splits sum.splits prod.splits)

lemma estimate_primary:
  "\<not> fallback_mode lm est pw \<Longrightarrow> estimate lm est pw = Inr (ns, e, g, s) \<Longrightarrow>
   \<exists>z zr. est = Available z \<and> z pw = Inr zr \<and> ns = []
      \<and> e = (case z_entropy zr of Some e' \<Rightarrow> e' | None \<Rightarrow> shannon_entropy_double lm pw)
      \<and> g = Some (case z_guesses zr of Some g' \<Rightarrow> g' | None \<Rightarrow> max 1 (m_pow2 lm e))
      \<and> s = Some (case z_score zr of Some s' \<Rightarrow> s' | None \<Rightarrow> 0)"
  by (auto simp: fallback_mode_def estimate_def dest!: try_zxcvbn_Inr
           split: estimator.splits sum.splits prod.splits)

lemma analyze_password_Inr:
  "analyze_password lm db est pw = Inr r \<Longrightarrow>
   \<exists>ns e g s. estimate lm est pw = Inr (ns, e, g, s)
     \<and> password_masked r = mask_password pw \<and> length_r r = length pw
     \<and> has_upper r = list_ex (isupper db) pw \<and> has_lower r = list_ex (islower db) pw
     \<and> has_digit r = list_ex (isdigit db) pw \<and> has_symbol r = list_ex (\<lambda>c. c \<in> symbols) pw
     \<and> charset_size_est r = charset_size (has_lower r) (has_upper r) (has_digit r) (has_symbol r)
     \<and> entropy_bits r = py_round e 3 \<and> guesses r = map_option py_int g \<and> score r = s
     \<and> notes_r r = ns"
  by (auto simp: analyze_password_def Let_def split: sum.splits prod.splits)

lemma analyze_password_returns:
  "shannon_entropy_double lm pw < 1024 \<Longrightarrow> \<exists>r. analyze_password lm db est pw = Inr r"
  by (auto simp: analyze_password_def Let_def estimate_def shannon_fallback_def pow2_def
           split: sum.splits prod.splits estimator.splits)

lemma analyze_password_raises:
  "1024 \<le> shannon_entropy_double lm pw \<Longrightarrow> fallback_mode lm est pw \<Longrightarrow>
   analyze_password lm db est pw = Inl (OverflowError range_error)"
  by (auto simp: analyze_password_def Let_def estimate_def shannon_fallback_def pow2_def fallback_mode_def
           split: sum.splits prod.splits estimator.splits)

lemma analyze_password_Inl:
  "analyze_password lm db est pw = Inl ex \<longleftrightarrow>
     fallback_mode lm est pw \<and> 1024 \<le> shannon_entropy_double lm pw \<and> ex = OverflowError range_error"
  by (auto simp: analyze_password_def Let_def estimate_def shannon_fallback_def pow2_def
        fallback_mode_def split: sum.splits prod.splits estimator.splits)

text \<open>
  Below 1024 bits of Shannon entropy every failure of the estimator is recovered: the
  fallback returns a result that carries exactly one note.
\<close>

lemma analyze_password_recovers:
  assumes "shannon_entropy_double lm pw < 1024" and "fallback_mode lm est pw"
  shows "\<exists>r n. analyze_password lm db est pw = Inr r \<and> notes_r r = [n]
           \<and> entropy_bits r = py_round (shannon_entropy_double lm pw) 3"
  using assms
  by (auto simp: analyze_password_def Let_def estimate_def shannon_fallback_def pow2_def
        fallback_mode_def split: sum.splits prod.splits estimator.splits)

text \<open>
  Claim C1 says that \<open>analyze_password\<close> returns a result for every input string.
  The password made of 32 copies of \<open>abcdefghijklmnop\<close> (512 characters, 16 distinct
  ones, each 32 times) has a Shannon entropy of 2048 bits, every step of the computation
  being exact in double arithmetic, and \<open>2 ** 2048.0\<close> raises \<open>OverflowError\<close>: with
  the estimator unavailable, with an estimator that raises, and with an estimator that
  reports no entropy of its own, the exception leaves \<open>analyze_password\<close>.
\<close>

theorem analyze_password_overflow:
  "analyze_password lm db Unavailable (py_repeat (str ''abcdefghijklmnop'') 32)
     = Inl (OverflowError range_error)
   \<and> analyze_password lm db (Available (\<lambda>pw. Inl (Exception (str ''boom''))))
        (py_repeat (str ''abcdefghijklmnop'') 32)
     = Inl (OverflowError range_error)
   \<and> analyze_password lm db
        (Available (\<lambda>pw. Inr \<lparr> z_entropy = None, z_guesses = Some 1000, z_score = Some 2 \<rparr>))
        (py_repeat (str ''abcdefghijklmnop'') 32)
     = Inl (OverflowError range_error)"
  by (simp add: analyze_password_raises shannon_double_long fallback_mode_def try_zxcvbn_def
        pow2_def)






lemma score_of_result:
  assumes "analyze_password lm db est pw = Inr r" and "estimator_contract est pw"
  shows "\<exists>s. score r = Some s \<and> 0 \<le> s \<and> s \<le> 4"
proof -
  from assms(1) obtain ns e' g s where es: "estimate lm est pw = Inr (ns, e', g, s)"
    and sr: "score r = s"
    using analyze_password_Inr by blast
  show ?thesis
  proof (cases "fallback_mode lm est pw")
    case True
    then show ?thesis using estimate_fallback [OF _ es] sr heuristic_score_range by simp
  next
    case False
    from estimate_primary [OF False es] obtain z zr where
      z: "est = Available z" "z pw = Inr zr"
      and s: "s = Some (case z_score zr of Some s' \<Rightarrow> s' | None \<Rightarrow> 0)"
      by blast
    from assms(2) z have "zres_contract zr" by (simp add: estimator_contract_def)
    then show ?thesis using sr s by (auto simp: zres_contract_def split: option.splits)
  qed
qed

text \<open>
  Claim C5. The score classifier returns 0 for length 0, and otherwise 0, 1, 2, 3 below
  28, 36, 60 and 80 bits and 4 from 80 bits on; it is a function of its two arguments
  alone, with values from 0 to 4. Hence the score of every result is from 0 to 4, the
  estimator's own score being so by its contract. A result is returned for every
  password of less than 1024 bits.
\<close>

theorem heuristic_score_ladder:
  "heuristic_score e len =
     (if len = 0 then 0 else if e < 28 then 0 else if e < 36 then 1
      else if e < 60 then 2 else if e < 80 then 3 else 4)
   \<and> 0 \<le> heuristic_score e len \<and> heuristic_score e len \<le> 4
   \<and> (shannon_entropy_double lm pw < 1024 \<longrightarrow> (\<exists>r. analyze_password lm db est pw = Inr r))
   \<and> (analyze_password lm db est pw = Inr r \<and> estimator_contract est pw
        \<longrightarrow> (\<exists>s. score r = Some s \<and> 0 \<le> s \<and> s \<le> 4))"
  using analyze_password_returns [of lm pw db est] score_of_result [of lm db est pw r]
    heuristic_score_range [of e len]
  by (simp add: heuristic_score_def)

theorem heuristic_score_ladder_witness:
  "shannon_entropy_double rounded_libm (str ''abcd'') < 1024
   \<and> estimator_contract Unavailable (str ''abcd'')
   \<and> (\<exists>r s. analyze_password rounded_libm ascii_db Unavailable (str ''abcd'') = Inr r
        \<and> score r = Some s \<and> 0 \<le> s \<and> s \<le> 4)
   \<and> heuristic_score 8 4 = 0 \<and> heuristic_score 30 4 = 1 \<and> heuristic_score 36 9 = 2
   \<and> heuristic_score 79 20 = 3 \<and> heuristic_score 80 20 = 4 \<and> heuristic_score 100 0 = 0"
proof -
  let ?lm = rounded_libm
  have e: "shannon_entropy_double ?lm (str ''abcd'') < 1024" by (simp add: shannon_double_abcd)
  have c: "estimator_contract Unavailable (str ''abcd'')" by (simp add: estimator_contract_def)
  from e heuristic_score_ladder [of 8 4 ?lm "str ''abcd''" ascii_db Unavailable]
  obtain r where r: "analyze_password ?lm ascii_db Unavailable (str ''abcd'') = Inr r" by blast
  have "\<exists>s. score r = Some s \<and> 0 \<le> s \<and> s \<le> 4"
    using heuristic_score_ladder [of 8 4 ?lm "str ''abcd''" ascii_db Unavailable r] r c by simp
  then show ?thesis
    using e r c heuristic_score_ladder [of 8 4] heuristic_score_ladder [of 30 4]
      heuristic_score_ladder [of 36 9] heuristic_score_ladder [of 79 20]
      heuristic_score_ladder [of 80 20] heuristic_score_ladder [of 100 0]
    by auto
qed

section \<open>Masking and the empty password\<close>

lemma py_round_zero: "py_round 0 n = 0"
  by (simp add: py_round_def round_half_even_def rnd_def)

lemma analyze_password_empty:
  "\<exists>r. analyze_password lm db est [] = Inr r \<and> length_r r = 0 \<and> password_masked r = []
      \<and> (estimator_entropy est [] = None \<or> estimator_entropy est [] = Some 0
           \<longrightarrow> entropy_bits r = 0)"
  by (auto simp: analyze_password_def Let_def estimate_def shannon_fallback_def try_zxcvbn_def
        pow2_def shannon_entropy_double_def estimator_entropy_def mask_password_def py_round_zero
        split: estimator.splits sum.splits option.splits)

lemma mask_password_long:
  "2 < length pw \<Longrightarrow> mask_password pw = hd pw # replicate (length pw - 2) 42 @ [last pw]"
  by (cases pw) (auto simp: mask_password_def py_repeat_star hd_conv_nth last_conv_nth)

lemma mask_password_short:
  "length pw \<le> 2 \<Longrightarrow> mask_password pw = replicate (length pw) 42"
  by (auto simp: mask_password_def py_repeat_star)

text \<open>
  Claim C10. For every input string the masked representation has exactly as many
  characters as the password itself, in the fully masked case (length at most 2) as well
  as in the case that keeps the first and the last character; so the masked password of
  every result, which is what the reports show, discloses the length of the original
  password.
\<close>

theorem mask_password_preserves_length:
  "length (mask_password pw) = length pw
   \<and> (analyze_password lm db est pw = Inr r \<longrightarrow>
        length (password_masked r) = length pw \<and> length_r r = length pw)"
  using analyze_password_Inr [of lm db est pw r] by (auto simp: length_mask_password)

theorem mask_password_preserves_length_witness:
  "length (mask_password (str ''ab'')) = 2
   \<and> length (mask_password (str ''secret'')) = 6
   \<and> (\<exists>r. analyze_password rounded_libm ascii_db Unavailable (str ''abcd'') = Inr r
          \<and> length (password_masked r) = 4 \<and> length_r r = 4)"
proof -
  obtain r where r: "analyze_password rounded_libm ascii_db Unavailable (str ''abcd'') = Inr r"
    using analyze_password_returns [of rounded_libm "str ''abcd''" ascii_db Unavailable]
    by (auto simp: shannon_double_abcd)
  then have "length (password_masked r) = 4 \<and> length_r r = 4"
    using mask_password_preserves_length [of "str ''abcd''" rounded_libm ascii_db Unavailable r]
    by (simp add: str_def)
  with r show ?thesis
    using mask_password_preserves_length [of "str ''ab''"]
      mask_password_preserves_length [of "str ''secret''"]
    by (auto simp: str_def)
qed

text \<open>
  Claim C7. A password of more than two characters is masked to its first character,
  one \<open>*\<close> for every interior character, and its last character; a password of at most
  two characters is masked to as many \<open>*\<close> as it has characters. In particular \<open>ab\<close>
  gives \<open>**\<close> and \<open>abcd\<close> gives \<open>a**d\<close>, and the analysis of the empty password
  returns length 0, an empty masked password and entropy 0 (the entropy being the
  Shannon entropy unless the estimator reports one of its own, which for the empty
  password is then taken to be 0).
\<close>

theorem mask_password_shape:
  "(2 < length pw \<longrightarrow>
      mask_password pw = [hd pw] @ replicate (length pw - 2) (of_char CHR ''*'') @ [last pw])
   \<and> (length pw \<le> 2 \<longrightarrow> mask_password pw = replicate (length pw) (of_char CHR ''*''))
   \<and> mask_password (str ''ab'') = str ''**''
   \<and> mask_password (str ''abcd'') = str ''a**d''
   \<and> (\<exists>r. analyze_password lm db est (str '''') = Inr r
          \<and> length_r r = 0 \<and> password_masked r = str ''''
          \<and> (estimator_entropy est (str '''') = None \<or> estimator_entropy est (str '''') = Some 0
               \<longrightarrow> entropy_bits r = 0))"
proof -
  have "mask_password (str ''ab'') = str ''**''"
    using mask_password_short [of "str ''ab''"] by (simp add: str_def numeral_eq_Suc)
  moreover have "mask_password (str ''abcd'') = str ''a**d''"
    using mask_password_long [of "str ''abcd''"] by (simp add: str_def numeral_eq_Suc)
  moreover have "str '''' = []" by (simp add: str_def)
  ultimately show ?thesis
    using analyze_password_empty [of lm db est]
    by (simp add: mask_password_long mask_password_short)
qed

theorem mask_password_shape_witness:
  "2 < length (str ''secret'') \<and> length (str ''no'') \<le> 2
   \<and> mask_password (str ''secret'') = str ''s****t''
   \<and> mask_password (str ''no'') = str ''**''
   \<and> estimator_entropy Unavailable (str '''') = None
   \<and> (\<exists>r. analyze_password rounded_libm ascii_db Unavailable (str '''') = Inr r
          \<and> length_r r = 0 \<and> password_masked r = str '''' \<and> entropy_bits r = 0)"
  using mask_password_shape [of "str ''secret''" rounded_libm ascii_db Unavailable]
        mask_password_shape [of "str ''no''" rounded_libm ascii_db Unavailable]
  by (simp add: str_def estimator_entropy_def numeral_eq_Suc)

section \<open>Character classes and the character-set size\<close>

lemma charset_size_sum:
  "charset_size lo up di sy =
     (if lo then 26 else 0) + (if up then 26 else 0) + (if di then 10 else 0) + (if sy then 32 else 0)"
  by (simp add: charset_size_def)

lemma set_ascii_letters: "set ascii_letters = {65..90} \<union> {97..122}"
  by (auto simp: ascii_letters_def ascii_lowercase_def ascii_uppercase_def str_def) arith+

lemma set_digits: "set digits = {48..57}"
  by (auto simp: digits_def str_def) arith

lemma set_punctuation: "set punctuation = {33..47} \<union> {58..64} \<union> {91..96} \<union> {123..126}"
  unfolding punctuation_def set_append set_upt by auto

lemma set_whitespace: "set whitespace = {9..13} \<union> {32}"
  by (auto simp: whitespace_def)

text \<open>The symbols of the program: the ASCII punctuation and the ASCII whitespace.\<close>

lemma symbols_ranges:
  "symbols = {9..13} \<union> {32..47} \<union> {58..64} \<union> {91..96} \<union> {123..126}"
  unfolding symbols_def printable_def set_append set_ascii_letters set_digits set_punctuation
    set_whitespace
  by auto

lemma flags_of_result:
  assumes "analyze_password lm db est pw = Inr r"
  shows "has_symbol r \<longleftrightarrow> (\<exists>c\<in>set pw. c \<in> symbols)"
    and "has_lower r \<longleftrightarrow> (\<exists>c\<in>set pw. islower db c)"
    and "has_upper r \<longleftrightarrow> (\<exists>c\<in>set pw. isupper db c)"
    and "has_digit r \<longleftrightarrow> (\<exists>c\<in>set pw. isdigit db c)"
    and "charset_size_est r
           = charset_size (has_lower r) (has_upper r) (has_digit r) (has_symbol r)"
  using analyze_password_Inr [OF assms] by (auto simp: list_ex_iff)

lemma shannon_double_single: "shannon_entropy_double lm [c] = 0"
  using shannon_entropy_double_uniform [of "[c]" 0 1 lm] by simp

text \<open>
  A character outside ASCII that is printable and not alphanumeric, as the euro sign
  (code 8364) is, is not a symbol of the program.
\<close>

lemma non_ascii_not_symbol:
  assumes "analyze_password lm db est [c] = Inr r" and "126 < c"
    and "isprintable db c" and "\<not> isalnum db c"
  shows "\<not> has_symbol r \<and> list_ex (spec_symbol db) [c]"
  using flags_of_result(1) [OF assms(1)] assms(2-4)
  by (simp add: symbols_ranges spec_symbol_def)

text \<open>
  Claim C8 says that \<open>has_symbol\<close> is true exactly when some character of the password
  is a printable character that is not alphanumeric. The program tests membership in
  \<open>string.printable\<close>, which holds the ASCII whitespace: for the password that is one
  tab, which is not a printable character, \<open>has_symbol\<close> is true and the character-set
  size is 32.
\<close>

theorem symbol_flag_counterexample:
  "map_sum id has_symbol (analyze_password rounded_libm ascii_db Unavailable [9]) = Inr True
   \<and> map_sum id charset_size_est (analyze_password rounded_libm ascii_db Unavailable [9])
       = Inr 32
   \<and> \<not> list_ex (spec_symbol ascii_db) [9]"
  by (simp add: analyze_password_def estimate_def shannon_fallback_def pow2_def
        shannon_double_single symbols_ranges charset_size_sum ascii_db_def spec_symbol_def
        Let_def)

text \<open>
  Claim C8, amended. \<open>has_symbol\<close> is true exactly when some character of the password
  is one of the 100 characters of \<open>string.printable\<close> and is neither an ASCII letter nor
  an ASCII digit, that is, when it is one of the 32 ASCII punctuation characters or one
  of the six ASCII whitespace characters (codes 9 to 13 and 32); \<open>charset_size_est\<close> is
  the sum of 26 for lowercase, 26 for uppercase, 10 for digits and 32 for symbols over
  the classes whose flag is set (0 when none is), each flag saying that some character
  of the password is in the class.
\<close>

theorem symbol_flag_and_charset_size:
  "(shannon_entropy_double lm pw < 1024 \<longrightarrow> (\<exists>r. analyze_password lm db est pw = Inr r))
   \<and> (analyze_password lm db est pw = Inr r \<longrightarrow>
        (has_symbol r \<longleftrightarrow>
           (\<exists>c\<in>set pw. c \<in> set printable \<and> c \<notin> set ascii_letters \<and> c \<notin> set digits))
        \<and> (has_symbol r \<longleftrightarrow>
             (\<exists>c\<in>set pw. c \<in> {9..13} \<union> {32..47} \<union> {58..64} \<union> {91..96} \<union> {123..126}))
        \<and> (has_lower r \<longleftrightarrow> (\<exists>c\<in>set pw. islower db c))
        \<and> (has_upper r \<longleftrightarrow> (\<exists>c\<in>set pw. isupper db c))
        \<and> (has_digit r \<longleftrightarrow> (\<exists>c\<in>set pw. isdigit db c))
        \<and> charset_size_est r =
            (if has_lower r then 26 else 0) + (if has_upper r then 26 else 0)
            + (if has_digit r then 10 else 0) + (if has_symbol r then 32 else 0)
        \<and> (\<not> has_lower r \<and> \<not> has_upper r \<and> \<not> has_digit r \<and> \<not> has_symbol r
             \<longrightarrow> charset_size_est r = 0))"
proof (intro conjI impI)
  show "\<exists>r. analyze_password lm db est pw = Inr r" if "shannon_entropy_double lm pw < 1024"
    using that by (rule analyze_password_returns)
next
  assume a: "analyze_password lm db est pw = Inr r"
  show "has_symbol r \<longleftrightarrow>
          (\<exists>c\<in>set pw. c \<in> set printable \<and> c \<notin> set ascii_letters \<and> c \<notin> set digits)"
    using flags_of_result(1) [OF a] by (auto simp: symbols_def)
  show "has_symbol r \<longleftrightarrow>
          (\<exists>c\<in>set pw. c \<in> {9..13} \<union> {32..47} \<union> {58..64} \<union> {91..96} \<union> {123..126})"
    using flags_of_result(1) [OF a] by (simp only: symbols_ranges)
  show "has_lower r \<longleftrightarrow> (\<exists>c\<in>set pw. islower db c)" by (rule flags_of_result(2) [OF a])
  show "has_upper r \<longleftrightarrow> (\<exists>c\<in>set pw. isupper db c)" by (rule flags_of_result(3) [OF a])
  show "has_digit r \<longleftrightarrow> (\<exists>c\<in>set pw. isdigit db c)" by (rule flags_of_result(4) [OF a])
  show "charset_size_est r =
            (if has_lower r then 26 else 0) + (if has_upper r then 26 else 0)
            + (if has_digit r then 10 else 0) + (if has_symbol r then 32 else 0)"
    using flags_of_result(5) [OF a] by (simp add: charset_size_sum)
  show "charset_size_est r = 0"
    if "\<not> has_lower r \<and> \<not> has_upper r \<and> \<not> has_digit r \<and> \<not> has_symbol r"
    using flags_of_result(5) [OF a] that by (simp add: charset_size_sum)
qed

theorem symbol_flag_and_charset_size_witness:
  "shannon_entropy_double rounded_libm (str ''aB3!'') < 1024
   \<and> (\<exists>r. analyze_password rounded_libm ascii_db Unavailable (str ''aB3!'') = Inr r
         \<and> has_symbol r \<and> has_lower r \<and> has_upper r \<and> has_digit r
         \<and> charset_size_est r = 94)
   \<and> (\<exists>r. analyze_password rounded_libm ascii_db Unavailable (str ''     '') = Inr r
         \<and> has_symbol r \<and> \<not> has_lower r \<and> \<not> has_upper r \<and> \<not> has_digit r
         \<and> charset_size_est r = 32)
   \<and> (\<exists>r. analyze_password rounded_libm ascii_db Unavailable [] = Inr r
         \<and> \<not> has_symbol r \<and> \<not> has_lower r \<and> \<not> has_upper r \<and> \<not> has_digit r
         \<and> charset_size_est r = 0)"
proof -
  let ?lm = rounded_libm
  have e: "shannon_entropy_double ?lm (str ''aB3!'') < 1024" by (simp add: shannon_double_aB3)
  have e': "shannon_entropy_double ?lm (str ''     '') < 1024"
    by (simp add: shannon_double_spaces)
  have e'': "shannon_entropy_double ?lm [] < 1024" by (simp add: shannon_double_empty)
  have p: "33 \<in> set printable \<and> 33 \<notin> set ascii_letters \<and> 33 \<notin> set digits"
    "32 \<in> set printable \<and> 32 \<notin> set ascii_letters \<and> 32 \<notin> set digits"
    by (simp_all add: printable_def set_ascii_letters set_digits set_punctuation set_whitespace)
  from e symbol_flag_and_charset_size [of ?lm "str ''aB3!''" ascii_db Unavailable]
  obtain r where r: "analyze_password ?lm ascii_db Unavailable (str ''aB3!'') = Inr r" by blast
  have 1: "has_symbol r \<and> has_lower r \<and> has_upper r \<and> has_digit r \<and> charset_size_est r = 94"
    using symbol_flag_and_charset_size [of ?lm "str ''aB3!''" ascii_db Unavailable r] r p
    by (simp add: str_def ascii_db_def)
  from e' symbol_flag_and_charset_size [of ?lm "str ''     ''" ascii_db Unavailable]
  obtain r' where r': "analyze_password ?lm ascii_db Unavailable (str ''     '') = Inr r'"
    by blast
  have 2: "has_symbol r' \<and> \<not> has_lower r' \<and> \<not> has_upper r' \<and> \<not> has_digit r'
           \<and> charset_size_est r' = 32"
    using symbol_flag_and_charset_size [of ?lm "str ''     ''" ascii_db Unavailable r'] r' p
    by (simp add: str_def ascii_db_def)
  from e'' symbol_flag_and_charset_size [of ?lm "[]" ascii_db Unavailable]
  obtain r'' where r'': "analyze_password ?lm ascii_db Unavailable [] = Inr r''" by blast
  have 3: "\<not> has_symbol r'' \<and> \<not> has_lower r'' \<and> \<not> has_upper r'' \<and> \<not> has_digit r''
           \<and> charset_size_est r'' = 0"
    using symbol_flag_and_charset_size [of ?lm "[]" ascii_db Unavailable r''] r''
    by simp
  from e r 1 r' 2 r'' 3 show ?thesis by blast
qed

section \<open>Crack time\<close>

lemma two_pow_numeral: "two_pow (numeral n) = 2 ^ numeral n"
  using two_pow_nat [of "numeral n"] by simp

lemma two_pow_neg_numeral: "two_pow (- numeral n) = 1 / 2 ^ numeral n"
  using two_pow_neg [of "numeral n"] by simp

lemma two_pow_0: "two_pow 0 = 1"
  by (simp add: two_pow_def)

lemma two_pow_1: "two_pow 1 = 2"
  by (simp add: two_pow_def)

lemma two_pow_minus_1: "two_pow (- 1) = 1 / 2"
  using two_pow_neg [of 1] by simp

lemmas two_pow_eval = two_pow_numeral two_pow_neg_numeral two_pow_0 two_pow_1 two_pow_minus_1

text \<open>Rounding a given number, once its binary exponent is known.\<close>

lemma rnd_eval:
  assumes "two_pow k \<le> \<bar>x\<bar>" and "\<bar>x\<bar> < two_pow (k + 1)" and "- 1022 \<le> k"
  shows "rnd x = of_int (round_half_even (x / two_pow (k - 52))) * two_pow (k - 52)"
proof -
  have "x \<noteq> 0" using assms(1) two_pow_pos [of k] by auto
  then show ?thesis
    by (simp add: rnd_def ulp_def exponent_of_eq [OF assms])
qed

lemma overflow_threshold_big: "2 ^ 53 < overflow_threshold"
  by (simp add: overflow_threshold_def)

lemma round_to_double_int:
  assumes "0 < n" and "n < 2 ^ 53"
  shows "round_to_double neg (of_int n) = Finite (if neg then - of_int n else of_int n)"
proof -
  have "(of_int n :: real) < 2 ^ 53" using assms(2) by (simp add: of_int_less_numeral_power_cancel_iff)
  then have "\<not> overflow_threshold \<le> of_int n" using overflow_threshold_big by linarith
  moreover have "rnd (of_int n) = of_int n" using assms by (intro rnd_of_int) simp
  ultimately show ?thesis using assms(1) by (simp add: round_to_double_def)
qed

text \<open>The unit boundaries of lines 159-162; \<open>1461 / 4\<close> is \<open>365.25\<close>.\<close>

lemma unit_constants:
  "ieee_mul (Finite 60) (Finite 60) = Finite 3600"
  "ieee_mul (Finite 24) (Finite 3600) = Finite 86400"
  "ieee_mul (Finite (1461 / 4)) (Finite 86400) = Finite 31557600"
  using round_to_double_int [of 3600 False] round_to_double_int [of 86400 False]
    round_to_double_int [of 31557600 False]
  by (simp_all add: ieee_mul_def)

lemma human_readable_seconds_ladder:
  "human_readable_seconds s =
     (if float_lt s (Finite 1) then format_f s 3 @ str '' seconds''
      else if float_lt s (Finite 60) then format_f s 2 @ str '' seconds''
      else if float_lt s (Finite 3600) then format_f (ieee_div s (Finite 60)) 2 @ str '' minutes''
      else if float_lt s (Finite 86400) then format_f (ieee_div s (Finite 3600)) 2 @ str '' hours''
      else if float_lt s (Finite 31557600)
        then format_f (ieee_div s (Finite 86400)) 2 @ str '' days''
      else format_f (ieee_div s (Finite 31557600)) 2 @ str '' years'')"
  by (simp add: human_readable_seconds_def Let_def unit_constants)

text \<open>
  Quotients as the code computes them: \<open>1000 / 60\<close>, \<open>3654 / 3600\<close> and \<open>64.5 / 60\<close>
  are not doubles, and the doubles next to the last two are below \<open>1.015\<close> and
  \<open>1.075\<close>.
\<close>

lemma div_1000_60: "ieee_div (Finite 1000) (Finite 60) = Finite (4691249611844267 / 2 ^ 48)"
proof -
  have "rnd (50 / 3) = 4691249611844267 / 2 ^ 48"
    using rnd_eval [of 4 "50 / 3"] by (simp add: two_pow_eval round_half_even_def Let_def)
  then show ?thesis
    by (simp add: ieee_div_def round_to_double_def overflow_threshold_def Let_def)
qed

lemma div_3654_3600: "ieee_div (Finite 3654) (Finite 3600) = Finite (4571153621781053 / 2 ^ 52)"
proof -
  have "rnd (203 / 200) = 4571153621781053 / 2 ^ 52"
    using rnd_eval [of 0 "203 / 200"] by (simp add: two_pow_eval round_half_even_def Let_def)
  then show ?thesis
    by (simp add: ieee_div_def round_to_double_def overflow_threshold_def Let_def)
qed

lemma div_645_60: "ieee_div (Finite (129 / 2)) (Finite 60) = Finite (4841369599423283 / 2 ^ 52)"
proof -
  have "rnd (43 / 40) = 4841369599423283 / 2 ^ 52"
    using rnd_eval [of 0 "43 / 40"] by (simp add: two_pow_eval round_half_even_def Let_def)
  then show ?thesis
    by (simp add: ieee_div_def round_to_double_def overflow_threshold_def Let_def)
qed

lemma div_1_3: "ieee_div (Finite 1) (Finite 3) = Finite (6004799503160661 / 2 ^ 54)"
proof -
  have "rnd (1 / 3) = 6004799503160661 / 2 ^ 54"
    using rnd_eval [of "- 2" "1 / 3"] by (simp add: two_pow_eval round_half_even_def Let_def)
  then show ?thesis
    by (simp add: ieee_div_def round_to_double_def overflow_threshold_def Let_def)
qed

lemma div_exact:
  "ieee_div (Finite 7200) (Finite 3600) = Finite 2"
  "ieee_div (Finite 172800) (Finite 86400) = Finite 2"
  "ieee_div (Finite 31557600) (Finite 31557600) = Finite 1"
  "ieee_div (Finite 1000000) (Finite 1000) = Finite 1000"
  using round_to_double_int [of 2 False] round_to_double_int [of 1 False]
    round_to_double_int [of 1000 False]
  by (simp_all add: ieee_div_def)

lemmas format_eval = format_f_def format_real_def round_half_even_def Let_def str_of_nat.simps
  zfill_def str_def

lemma human_readable_examples:
  "human_readable_seconds (Finite 1000) = str ''16.67 minutes''"
  "human_readable_seconds (Finite 3654) = str ''1.01 hours''"
  "human_readable_seconds (Finite 64.5) = str ''1.07 minutes''"
  by (simp_all add: human_readable_seconds_ladder float_lt_def div_1000_60 div_3654_3600
        div_645_60 format_eval)

lemma round_half_even_ge_1: "1 \<le> y \<Longrightarrow> 1 \<le> round_half_even y"
proof -
  assume "1 \<le> y"
  then have "1 \<le> \<lfloor>y\<rfloor>" by (simp add: le_floor_iff)
  then show ?thesis by (auto simp: round_half_even_def Let_def)
qed

text \<open>An int of 1 or more is not rounded to zero.\<close>

lemma rnd_pos:
  assumes "1 \<le> x"
  shows "0 < rnd x"
proof -
  define e where "e = \<lfloor>log 2 x\<rfloor>"
  have x: "0 < x" using assms by simp
  have "0 \<le> log 2 x" using assms by simp
  then have e0: "0 \<le> e" by (simp add: e_def)
  have "two_pow e \<le> x"
    using floor_log_eq_powr_iff [of x 2 e] x by (simp add: e_def two_pow_def)
  moreover have u: "ulp x = two_pow (e - 52)"
  proof -
    from e0 have "max (- 1022) e = e" by simp
    moreover have "\<bar>x\<bar> = x" using x by simp
    ultimately show ?thesis by (simp add: ulp_def exponent_of_def e_def [symmetric])
  qed
  moreover have "two_pow e = 2 ^ 52 * two_pow (e - 52)"
    using two_pow_add [of 52 "e - 52"] by (simp add: two_pow_numeral)
  ultimately have "2 ^ 52 * ulp x \<le> x" by simp
  then have "2 ^ 52 \<le> x / ulp x"
    using two_pow_pos [of "e - 52"] u by (simp add: pos_le_divide_eq)
  moreover have "(1::real) \<le> 2 ^ 52" by simp
  ultimately have "1 \<le> x / ulp x" by (rule order_trans [rotated])
  then have "1 \<le> round_half_even (x / ulp x)" by (rule round_half_even_ge_1)
  then have "0 < real_of_int (round_half_even (x / ulp x)) * ulp x"
    using two_pow_pos [of "e - 52"] u by simp
  then show ?thesis using x by (simp add: rnd_def)
qed

lemma py_float_not_zero:
  assumes "\<not> num_le_zero gps" and "py_float gps = Inr b"
  shows "\<not> is_zero b"
proof (cases gps)
  case (PyInt i)
  with assms(1) have "1 \<le> (of_int i :: real)" by (simp add: num_le_zero_def)
  then have "0 < rnd (of_int i)" by (rule rnd_pos)
  then show ?thesis using assms(2) PyInt by (auto simp: py_float_def split: if_splits)
next
  case (PyFloat f)
  then show ?thesis using assms
    by (cases f) (auto simp: num_le_zero_def py_float_def float_lt_def)
qed

lemma replicate_small: "replicate 1 x = [x]" "replicate 2 x = [x, x]"
  by (simp_all add: numeral_2_eq_2)

lemma div_special:
  "ieee_div PosInf (Finite 31557600) = PosInf"
  "ieee_div NaN (Finite 31557600) = NaN"
  by (simp_all add: ieee_div_def signed_inf_def)

text \<open>
  Claim C2 says that for every positive rate the converter returns a result. It is
  handed ints as well as floats (the test and the form pass ints), and \<open>float(guesses)\<close>
  raises \<open>OverflowError\<close> for an int beyond the doubles: for \<open>10 ** 400\<close> guesses at
  the rate \<open>1.0\<close> no result is returned.
\<close>

theorem estimate_crack_time_counterexample:
  "estimate_crack_time_from_guesses (PyInt (10 ^ 400)) (PyFloat (Finite 1))
     = Inl (OverflowError (str ''int too large to convert to float''))"
  by (simp add: estimate_crack_time_from_guesses_def num_le_zero_def float_lt_def py_float_def
        overflow_threshold_def)

text \<open>
  Claim C2, amended. \<open>estimate_crack_time_from_guesses\<close> raises \<open>ValueError\<close> exactly
  when the rate is \<open><= 0\<close>, before any conversion or division. For any other rate the
  only exception is the \<open>OverflowError\<close> of \<open>float()\<close> on an int too large for a
  double, so no division by zero is reached; and when both arguments convert, it returns
  the seconds \<open>float(guesses) / float(guesses_per_second)\<close>, the quotient rounded to a
  double, and the rate it was given.
\<close>

theorem estimate_crack_time_rate_check:
  "((\<exists>m. estimate_crack_time_from_guesses g gps = Inl (ValueError m)) \<longleftrightarrow> num_le_zero gps)
   \<and> (\<forall>ex. estimate_crack_time_from_guesses g gps = Inl ex \<longrightarrow>
          (num_le_zero gps \<and> ex = ValueError (str ''guesses_per_second must be > 0''))
          \<or> (\<not> num_le_zero gps
              \<and> ex = OverflowError (str ''int too large to convert to float'')
              \<and> (py_float g = Inl ex \<or> py_float gps = Inl ex)))
   \<and> (\<forall>a b. \<not> num_le_zero gps \<and> py_float g = Inr a \<and> py_float gps = Inr b \<longrightarrow>
          (\<exists>r. estimate_crack_time_from_guesses g gps = Inr r
             \<and> seconds r = ieee_div a b \<and> guesses_per_second r = gps
             \<and> human_readable r = human_readable_seconds (ieee_div a b)))"
proof (intro conjI allI impI)
  show "(\<exists>m. estimate_crack_time_from_guesses g gps = Inl (ValueError m)) \<longleftrightarrow> num_le_zero gps"
    by (auto simp: estimate_crack_time_from_guesses_def py_float_def py_div_def Let_def
          split: sum.splits pynum.splits if_splits)
next
  fix ex
  assume "estimate_crack_time_from_guesses g gps = Inl ex"
  then show "(num_le_zero gps \<and> ex = ValueError (str ''guesses_per_second must be > 0''))
          \<or> (\<not> num_le_zero gps
              \<and> ex = OverflowError (str ''int too large to convert to float'')
              \<and> (py_float g = Inl ex \<or> py_float gps = Inl ex))"
    using py_float_not_zero [of gps]
    by (auto simp: estimate_crack_time_from_guesses_def py_float_def py_div_def Let_def
          split: sum.splits pynum.splits if_splits)
next
  fix a b
  assume h: "\<not> num_le_zero gps \<and> py_float g = Inr a \<and> py_float gps = Inr b"
  then have "\<not> is_zero b" using py_float_not_zero by blast
  with h show "\<exists>r. estimate_crack_time_from_guesses g gps = Inr r
             \<and> seconds r = ieee_div a b \<and> guesses_per_second r = gps
             \<and> human_readable r = human_readable_seconds (ieee_div a b)"
    by (simp add: estimate_crack_time_from_guesses_def py_div_def Let_def)
qed

theorem estimate_crack_time_rate_check_witness:
  "\<not> num_le_zero (PyInt 1000)
   \<and> py_float (PyInt 1000000) = Inr (Finite 1000000)
   \<and> py_float (PyInt 1000) = Inr (Finite 1000)
   \<and> (\<exists>r. estimate_crack_time_from_guesses (PyInt 1000000) (PyInt 1000) = Inr r
         \<and> seconds r = Finite 1000 \<and> guesses_per_second r = PyInt 1000
         \<and> human_readable r = str ''16.67 minutes'')
   \<and> (\<exists>r. estimate_crack_time_from_guesses (PyInt 1) (PyInt 3) = Inr r
         \<and> seconds r = Finite (6004799503160661 / 2 ^ 54))
   \<and> num_le_zero (PyInt 0) \<and> num_le_zero (PyFloat (Finite (- 5)))
   \<and> (\<exists>m. estimate_crack_time_from_guesses (PyInt 1000000) (PyInt 0) = Inl (ValueError m))
   \<and> (\<exists>m. estimate_crack_time_from_guesses (PyInt 1000000) (PyFloat (Finite (- 5)))
            = Inl (ValueError m))"
proof -
  have f: "py_float (PyInt 1000000) = Inr (Finite 1000000)"
    "py_float (PyInt 1000) = Inr (Finite 1000)"
    "py_float (PyInt 1) = Inr (Finite 1)" "py_float (PyInt 3) = Inr (Finite 3)"
    using rnd_of_int [of 1000000] rnd_of_int [of 1000] rnd_of_int [of 1] rnd_of_int [of 3]
    by (simp_all add: py_float_def overflow_threshold_def)
  have n: "\<not> num_le_zero (PyInt 1000)" "\<not> num_le_zero (PyInt 3)"
    "num_le_zero (PyInt 0)" "num_le_zero (PyFloat (Finite (- 5)))"
    by (simp_all add: num_le_zero_def float_lt_def)
  have 1: "\<exists>r. estimate_crack_time_from_guesses (PyInt 1000000) (PyInt 1000) = Inr r
         \<and> seconds r = Finite 1000 \<and> guesses_per_second r = PyInt 1000
         \<and> human_readable r = str ''16.67 minutes''"
    using estimate_crack_time_rate_check [of "PyInt 1000000" "PyInt 1000"] f n
    by (simp add: div_exact human_readable_examples)
  have 2: "\<exists>r. estimate_crack_time_from_guesses (PyInt 1) (PyInt 3) = Inr r
         \<and> seconds r = Finite (6004799503160661 / 2 ^ 54)"
    using estimate_crack_time_rate_check [of "PyInt 1" "PyInt 3"] f n
    by (auto simp: div_1_3)
  have 3: "\<exists>m. estimate_crack_time_from_guesses (PyInt 1000000) (PyInt 0) = Inl (ValueError m)"
    using estimate_crack_time_rate_check [of "PyInt 1000000" "PyInt 0"] n by simp
  have 4: "\<exists>m. estimate_crack_time_from_guesses (PyInt 1000000) (PyFloat (Finite (- 5)))
            = Inl (ValueError m)"
    using estimate_crack_time_rate_check [of "PyInt 1000000" "PyFloat (Finite (- 5))"] n
    by simp
  from f n 1 2 3 4 show ?thesis by simp
qed

text \<open>
  Claim C6. The duration string is chosen by the boundaries 1, 60, 3600, 86400 and
  31557600 seconds, in this order: below 1 the seconds with 3 decimals, below 60 the
  seconds with 2 decimals, then minutes, hours, days and, from a year on, years, each
  the float quotient with 2 decimals.
\<close>

theorem human_readable_seconds_boundaries:
  "human_readable_seconds s =
     (if float_lt s (Finite 1) then format_f s 3 @ str '' seconds''
      else if float_lt s (Finite 60) then format_f s 2 @ str '' seconds''
      else if float_lt s (Finite 3600) then format_f (ieee_div s (Finite 60)) 2 @ str '' minutes''
      else if float_lt s (Finite 86400) then format_f (ieee_div s (Finite 3600)) 2 @ str '' hours''
      else if float_lt s (Finite 31557600)
        then format_f (ieee_div s (Finite 86400)) 2 @ str '' days''
      else format_f (ieee_div s (Finite 31557600)) 2 @ str '' years'')"
  by (rule human_readable_seconds_ladder)

theorem human_readable_seconds_boundaries_witness:
  "human_readable_seconds (Finite (1 / 2)) = str ''0.500 seconds''
   \<and> human_readable_seconds (Finite 1) = str ''1.00 seconds''
   \<and> human_readable_seconds (Finite 1000) = str ''16.67 minutes''
   \<and> human_readable_seconds (Finite (129 / 2)) = str ''1.07 minutes''
   \<and> human_readable_seconds (Finite 3654) = str ''1.01 hours''
   \<and> human_readable_seconds (Finite 7200) = str ''2.00 hours''
   \<and> human_readable_seconds (Finite 172800) = str ''2.00 days''
   \<and> human_readable_seconds (Finite 31557600) = str ''1.00 years''
   \<and> human_readable_seconds NegZero = str ''-0.000 seconds''
   \<and> human_readable_seconds PosInf = str ''inf years''
   \<and> human_readable_seconds NaN = str ''nan years''"
  using human_readable_seconds_boundaries [of "Finite (1 / 2)"]
    human_readable_seconds_boundaries [of "Finite 1"]
    human_readable_seconds_boundaries [of "Finite 1000"]
    human_readable_seconds_boundaries [of "Finite (129 / 2)"]
    human_readable_seconds_boundaries [of "Finite 3654"]
    human_readable_seconds_boundaries [of "Finite 7200"]
    human_readable_seconds_boundaries [of "Finite 172800"]
    human_readable_seconds_boundaries [of "Finite 31557600"]
    human_readable_seconds_boundaries [of NegZero]
    human_readable_seconds_boundaries [of PosInf]
    human_readable_seconds_boundaries [of NaN]
  by (simp add: float_lt_def div_1000_60 div_3654_3600 div_645_60 div_exact div_special
        format_eval replicate_small)

section \<open>CSV report\<close>

text \<open>\<open>str_of_nat\<close> writes the decimal numeral of its argument.\<close>

lemma nat_of_str_of_nat: "nat_of_str (str_of_nat n) = n"
proof (induction n rule: str_of_nat.induct)
  case (1 n)
  show ?case
  proof (cases "n < 10")
    case True
    then show ?thesis by (simp add: str_of_nat.simps [of n] nat_of_str_def)
  next
    case False
    with 1 have "nat_of_str (str_of_nat (n div 10)) = n div 10" by simp
    with False show ?thesis
      by (simp add: str_of_nat.simps [of n] nat_of_str_def)
  qed
qed

lemma str_of_nat_digits: "\<forall>d\<in>set (str_of_nat n). 48 \<le> d \<and> d \<le> 57"
proof (induction n rule: str_of_nat.induct)
  case (1 n)
  show ?case
  proof (cases "n < 10")
    case True
    then show ?thesis by (simp add: str_of_nat.simps [of n])
  next
    case False
    with 1 have "\<forall>d\<in>set (str_of_nat (n div 10)). 48 \<le> d \<and> d \<le> 57" by simp
    moreover have "n mod 10 \<le> 9" by simp
    ultimately show ?thesis using False
      by (auto simp: str_of_nat.simps [of n])
  qed
qed

lemma write_rows_eq:
  "write_rows i rs f = f @ map (\<lambda>(k, r). csv_row (i + k) r) (enumerate 0 rs)"
proof (induction rs arbitrary: i f)
  case Nil
  then show ?case by simp
next
  case (Cons r rs)
  have "map (\<lambda>(k, r). csv_row (i + k) r) (enumerate (Suc 0) rs)
        = map (\<lambda>(k, r). csv_row (Suc i + k) r) (enumerate 0 rs)"
    by (simp add: enumerate_Suc_eq map_prod_def split_def comp_def)
  with Cons.IH [of "Suc i" "f @ [csv_row i r]"] show ?case by simp
qed

lemma length_write_rows: "length (write_rows i rs f) = length f + length rs"
  by (simp add: write_rows_eq)

lemma nth_write_rows:
  "k < length rs \<Longrightarrow> write_rows i rs f ! (length f + k) = csv_row (i + k) (rs ! k)"
  by (simp add: write_rows_eq nth_append nth_enumerate_eq)

lemma write_rows_header: "write_rows i rs (h # f) = h # write_rows i rs f"
  by (simp add: write_rows_eq)

text \<open>
  Claim C9. The CSV file written for the empty list holds the header row alone. The
  file written for \<open>N\<close> results holds the header row and then \<open>N\<close> rows, the \<open>k\<close>-th of
  them built from the \<open>k\<close>-th result, with \<open>password_id\<close> \<open>p1\<close> to \<open>pN\<close> and the notes
  joined with \<open> | \<close> in the last column.
\<close>

theorem save_csv_report_rows:
  "save_csv_report meta [] filename fs filename = Some [map CStr fieldnames]
   \<and> (\<exists>rows. save_csv_report meta results filename fs filename
                 = Some (map CStr fieldnames # rows)
          \<and> length rows = length results
          \<and> (\<forall>k<length results.
                rows ! k = csv_row (k + 1) (results ! k)
                \<and> rows ! k ! 0 = CStr (str ''p'' @ str_of_nat (k + 1))
                \<and> rows ! k ! 1 = CStr (password_masked (results ! k))
                \<and> rows ! k ! 6 = CStr (join (str '' | '') (notes_r (results ! k)))))"
proof -
  let ?rows = "write_rows 1 results []"
  have 1: "save_csv_report meta results filename fs filename = Some (map CStr fieldnames # ?rows)"
    by (cases results) (simp_all add: save_csv_report_def write_rows_header)
  have 2: "length ?rows = length results" by (simp add: length_write_rows)
  have 3: "?rows ! k = csv_row (k + 1) (results ! k)" if "k < length results" for k
    using nth_write_rows [OF that, of 1 "[]"] by simp
  have 4: "?rows ! k ! 0 = CStr (str ''p'' @ str_of_nat (k + 1))
         \<and> ?rows ! k ! 1 = CStr (password_masked (results ! k))
         \<and> ?rows ! k ! 6 = CStr (join (str '' | '') (notes_r (results ! k)))"
    if "k < length results" for k
    unfolding 3 [OF that] by (simp add: csv_row_def)
  have 5: "save_csv_report meta [] filename fs filename = Some [map CStr fieldnames]"
    by (simp add: save_csv_report_def)
  have "\<forall>k<length results.
          ?rows ! k = csv_row (k + 1) (results ! k)
          \<and> ?rows ! k ! 0 = CStr (str ''p'' @ str_of_nat (k + 1))
          \<and> ?rows ! k ! 1 = CStr (password_masked (results ! k))
          \<and> ?rows ! k ! 6 = CStr (join (str '' | '') (notes_r (results ! k)))"
    using 3 4 by blast
  with 1 2 5 show ?thesis by blast
qed

theorem save_csv_report_rows_witness:
  "\<exists>rows. save_csv_report ()
             [sample_result (str ''a**d'') [str ''first'', str ''second''],
              sample_result (str ''w**z'') []]
             (str ''out.csv'') Map.empty (str ''out.csv'')
           = Some (map CStr fieldnames # rows)
      \<and> length rows = 2
      \<and> rows ! 0 ! 0 = CStr (str ''p1'') \<and> rows ! 1 ! 0 = CStr (str ''p2'')
      \<and> rows ! 0 ! 1 = CStr (str ''a**d'') \<and> rows ! 1 ! 1 = CStr (str ''w**z'')
      \<and> rows ! 0 ! 6 = CStr (str ''first | second'') \<and> rows ! 1 ! 6 = CStr []"
proof -
  let ?rs = "[sample_result (str ''a**d'') [str ''first'', str ''second''],
              sample_result (str ''w**z'') []]"
  have s: "str_of_nat (Suc 0) = [49]" "str_of_nat (Suc (Suc 0)) = [50]"
    by (simp_all add: str_of_nat.simps)
  from save_csv_report_rows [of "()" "str ''out.csv''" Map.empty ?rs]
  obtain rows where r: "save_csv_report () ?rs (str ''out.csv'') Map.empty (str ''out.csv'')
             = Some (map CStr fieldnames # rows)" "length rows = length ?rs"
     and k: "\<forall>k<length ?rs.
                rows ! k = csv_row (k + 1) (?rs ! k)
                \<and> rows ! k ! 0 = CStr (str ''p'' @ str_of_nat (k + 1))
                \<and> rows ! k ! 1 = CStr (password_masked (?rs ! k))
                \<and> rows ! k ! 6 = CStr (join (str '' | '') (notes_r (?rs ! k)))"
    by blast
  from k [rule_format, of 0] k [rule_format, of 1]
  have "rows ! 0 ! 0 = CStr (str ''p1'') \<and> rows ! 1 ! 0 = CStr (str ''p2'')
      \<and> rows ! 0 ! 1 = CStr (str ''a**d'') \<and> rows ! 1 ! 1 = CStr (str ''w**z'')
      \<and> rows ! 0 ! 6 = CStr (str ''first | second'') \<and> rows ! 1 ! 6 = CStr []"
    by (simp add: s sample_result_def csv_row_def str_def)
  with r show ?thesis by auto
qed

end
